theory Spec2Isabelle
  imports Complex_Main
begin

section \<open>Saving Tracker: plan accounting and scheduling engine\<close>

text \<open>
  A shallow embedding of the engine in the application script of the repository
  (the newer of its two versions, the one with exclusions, indefinite mode and the
  surcharge rule) and of the persisted document of \<^verbatim>\<open>store.js\<close>.

  Conventions of the model.
  \<^item> A calendar date is the number of days since 1970-01-01 (\<open>day\<close>). The script holds
    dates as \<^verbatim>\<open>YYYY-MM-DD\<close> strings, on which the string order it uses is the order of
    the calendar, and as \<^verbatim>\<open>Date\<close> objects, which are instants: a \<open>date\<close> here is the
    local day and the local time of day of the instant, in the time zone of the device.
  \<^item> The time zone of the device is a parameter (\<open>zone\<close>) of every function that
    computes with \<^verbatim>\<open>Date\<close> objects: it tells on which days the clock is set forward at
    local midnight, so that the day has no 00:00.
  \<^item> "Today" (\<^verbatim>\<open>getManilaDate()\<close>, \<^verbatim>\<open>getTodayStr()\<close>) is read from the clock in the
    script; it is a parameter of every function that reads it.
  \<^item> Amounts are JavaScript numbers in the script and real numbers here: rounding of
    binary floating point is not modelled.
  \<^item> A field that may be absent from a stored plan is an \<open>option\<close>; the script's
    \<^verbatim>\<open>x || 0\<close> is \<open>orZero\<close>.
\<close>

subsection \<open>Exclusion ranges\<close>

type_synonym day = int

record exclusion =
  start :: day
  end' :: day

text \<open>
  \<^verbatim>\<open>mergeExclusions\<close>: the ranges are sorted by \<open>start\<close> with the array's stable sort
  (\<open>sort_key\<close> is a stable insertion sort), then scanned once. \<open>mergeScan\<close> is the
  \<^verbatim>\<open>for\<close> loop, with the loop variables \<open>current\<close> and \<open>merged\<close>. The script extends
  \<^verbatim>\<open>current.end\<close> in place, on an object of the array it was given; the ranges of an
  array are distinct objects, so the list returned is the one computed here. The change
  this makes to the given ranges, which leaves the days they cover the same, is not
  modelled.
\<close>

fun mergeScan :: "exclusion \<Rightarrow> exclusion list \<Rightarrow> exclusion list \<Rightarrow> exclusion list" where
  "mergeScan current [] merged = merged @ [current]"
| "mergeScan current (next # rest) merged =
     (if start next \<le> end' current
      then mergeScan (if end' next > end' current then current\<lparr>end' := end' next\<rparr> else current)
             rest merged
      else mergeScan next rest (merged @ [current]))"

definition mergeExclusions :: "exclusion list \<Rightarrow> exclusion list" where
  "mergeExclusions exclusions =
     (if exclusions = [] then []
      else (let sorted = sort_key start exclusions
            in mergeScan (hd sorted) (tl sorted) []))"

text \<open>The test \<^verbatim>\<open>dStr >= ex.start && dStr <= ex.end\<close> of the script.\<close>

definition inRange :: "day \<Rightarrow> exclusion \<Rightarrow> bool" where
  "inRange d ex \<longleftrightarrow> d \<ge> start ex \<and> d \<le> end' ex"

definition isDateInExclusions :: "day \<Rightarrow> exclusion list \<Rightarrow> bool" where
  "isDateInExclusions date exclusions = list_ex (inRange date) exclusions"

text \<open>
  No two ranges of a list overlap or touch out of order: every range ends strictly before
  each later range starts. On such a list the scan of \<open>mergeScan\<close> merges nothing.
\<close>

definition separated :: "exclusion list \<Rightarrow> bool" where
  "separated xs = sorted_wrt (\<lambda>a b. end' a < start b) xs"

subsection \<open>Counting working days\<close>

text \<open>
  The calendar of the platform's \<^verbatim>\<open>Date\<close>, which the script relies on: \<open>dateOf y m d\<close>
  is the day number of the civil date \<^verbatim>\<open>y-m-d\<close> (what \<^verbatim>\<open>new Date('y-m-dT00:00:00')\<close>
  denotes), and \<open>getDay\<close> is the weekday, 0 for Sunday to 6 for Saturday
  (1970-01-01 was a Thursday).
\<close>

definition dateOf :: "int \<Rightarrow> int \<Rightarrow> int \<Rightarrow> day" where
  "dateOf y m d =
     (let y1 = (if m \<le> 2 then y - 1 else y);
          era = y1 div 400;
          yoe = y1 - era * 400;
          doy = (153 * (if m > 2 then m - 3 else m + 9) + 2) div 5 + d - 1;
          doe = yoe * 365 + yoe div 4 - yoe div 100 + doy
      in era * 146097 + doe - 719468)"

definition getDay :: "day \<Rightarrow> int" where
  "getDay d = (d + 4) mod 7"

text \<open>
  A \<^verbatim>\<open>Date\<close> object is an instant, read and set through local time. Here it is the
  pair of its local day and its local time of day in minutes; \<open>dateLe\<close> is the script's
  comparison of two instants (\<^verbatim>\<open>cur <= last\<close>).

  A \<open>zone\<close> gives, for each day, by how many minutes the clock is set forward at local
  midnight of that day (0 on a day that has its 00:00). A local time that the clock skips
  denotes the instant that many minutes later (\<open>localTime\<close>), as the platform resolves it:
  on such a day \<^verbatim>\<open>new Date(s + 'T00:00:00')\<close> and \<^verbatim>\<open>setHours(0, 0, 0, 0)\<close> give 01:00
  for a change of one hour (\<open>atMidnight\<close>). \<^verbatim>\<open>cur.setDate(cur.getDate() + 1)\<close> keeps the
  local time of day and moves to the next local day (\<open>setDateNext\<close>). Clock changes at
  other times of day do not meet the times these dates hold and are not represented.
\<close>

type_synonym zone = "day \<Rightarrow> nat"

type_synonym date = "day \<times> nat"

definition localTime :: "zone \<Rightarrow> day \<Rightarrow> nat \<Rightarrow> date" where
  "localTime z d t = (d, if t < z d then t + z d else t)"

definition atMidnight :: "zone \<Rightarrow> day \<Rightarrow> date" where
  "atMidnight z d = localTime z d 0"

definition setDateNext :: "zone \<Rightarrow> date \<Rightarrow> date" where
  "setDateNext z cur = localTime z (fst cur + 1) (snd cur)"

definition dateLe :: "date \<Rightarrow> date \<Rightarrow> bool" where
  "dateLe a b \<longleftrightarrow> fst a < fst b \<or> (fst a = fst b \<and> snd a \<le> snd b)"

text \<open>
  The clock of Asia/Manila, the zone the script is written for, for the days since 1980:
  it was set forward once, from 00:00 to 01:00 on 1990-05-21.
\<close>

definition manila :: zone where
  "manila d = (if d = dateOf 1990 5 21 then 60 else 0)"

text \<open>
  \<^verbatim>\<open>countCalculationDays\<close>, given the local days of its \<^verbatim>\<open>start\<close> and \<^verbatim>\<open>end\<close>
  arguments (date strings or \<^verbatim>\<open>Date\<close> objects): both are brought to local midnight, and
  \<open>countLoop\<close> is the \<^verbatim>\<open>while (cur <= last)\<close> loop (\<open>lastDate\<close> is the script's
  \<^verbatim>\<open>last\<close>). The weekday and the \<^verbatim>\<open>en-CA\<close> date string of \<open>cur\<close> are those of its
  local day.
\<close>

function countLoop :: "zone \<Rightarrow> date \<Rightarrow> date \<Rightarrow> exclusion list \<Rightarrow> nat \<Rightarrow> nat" where
  "countLoop z cur lastDate mergedEx count =
     (if dateLe cur lastDate then
        (let dayNum = getDay (fst cur);
             isWeekend = (dayNum = 0 \<or> dayNum = 6);
             isExcluded = list_ex (inRange (fst cur)) mergedEx
         in countLoop z (setDateNext z cur) lastDate mergedEx
              (if \<not> isWeekend \<and> \<not> isExcluded then count + 1 else count))
      else count)"
  by pat_completeness auto
termination
  by (relation "measure (\<lambda>(z, cur, lastDate, mergedEx, count). nat (fst lastDate + 1 - fst cur))")
    (auto simp: dateLe_def setDateNext_def localTime_def)

declare countLoop.simps [simp del]

definition countCalculationDays :: "zone \<Rightarrow> day \<Rightarrow> day \<Rightarrow> exclusion list \<Rightarrow> nat" where
  "countCalculationDays z startDay0 endDay exclusions =
     (let cur = atMidnight z startDay0;
          lastDate = atMidnight z endDay;
          mergedEx = mergeExclusions exclusions
      in countLoop z cur lastDate mergedEx 0)"

subsection \<open>Plans and the document\<close>

text \<open>
  A history entry is \<^verbatim>\<open>{date, totalSaved}\<close> in a plan and \<^verbatim>\<open>{date, savings}\<close> in the
  document: a date label and an amount.
\<close>

type_synonym snapshot = "string \<times> real"

text \<open>
  A plan as \<^verbatim>\<open>save-new-plan\<close> builds it and the handlers extend it. \<open>None\<close> in a numeric
  field is a value that the script's \<^verbatim>\<open>|| 0\<close> reads as 0 (the field is absent).
  \<open>useEndDate\<close> is absent from plans stored by the older script, and only the value
  \<^verbatim>\<open>false\<close> switches the end date off. \<open>endDate\<close> is the day that
  \<^verbatim>\<open>new Date(plan.endDate)\<close> denotes: \<open>None\<close> when that is an invalid date (an empty
  end-date string), day 0 for the \<^verbatim>\<open>null\<close> of a plan without end date. An absent
  \<open>exclusions\<close> or \<open>history\<close> array is the empty list.
\<close>

record plan =
  plan_id :: string
  name :: string
  startDate :: string
  endDate :: "day option"
  useEndDate :: "bool option"
  goal :: real
  exclusions :: "exclusion list"
  products :: "(string \<times> real) list"
  totalSaved :: "real option"
  totalSpent :: "real option"
  penaltyDebt :: "real option"
  estimateMode :: bool
  manualSavingsMode :: bool
  penaltyMode :: bool
  dayActive :: bool
  history :: "snapshot list"
  dailyAllowance :: "real option"
  dailySpent :: "real option"
  dailySavingsGoal :: "real option"

text \<open>The document of \<^verbatim>\<open>Store.load\<close>, with the \<open>history\<close> the script adds to it.\<close>

record document =
  tosAgreed :: bool
  plans :: "plan list"
  totalSavings :: real
  stateHistory :: "snapshot list"
  lastLoginDate :: string

definition orZero :: "real option \<Rightarrow> real" where
  "orZero v = (case v of None \<Rightarrow> 0 | Some x \<Rightarrow> x)"

text \<open>The object literal of the \<^verbatim>\<open>save-new-plan\<close> handler.\<close>

definition newPlan :: "string \<Rightarrow> string \<Rightarrow> string \<Rightarrow> bool \<Rightarrow> day option \<Rightarrow> real \<Rightarrow> plan" where
  "newPlan pid nm start0 useEnd endDay goal0 =
     \<lparr>plan_id = pid, name = nm, startDate = start0, endDate = endDay,
      useEndDate = Some useEnd, goal = goal0, exclusions = [], products = [],
      totalSaved = Some 0, totalSpent = Some 0, penaltyDebt = Some 0,
      estimateMode = True, manualSavingsMode = False, penaltyMode = True,
      dayActive = False, history = [],
      dailyAllowance = None, dailySpent = None, dailySavingsGoal = None\<rparr>"

subsection \<open>The daily target\<close>

text \<open>
  \<^verbatim>\<open>calculateRequiredDaily(plan, allowance)\<close>, with today's date as a parameter; \<open>today\<close>
  and \<open>end\<close> of the script are the dates at local midnight of these days. With an
  invalid end date the script's test \<^verbatim>\<open>today > end\<close> is false and the counting loop
  does not run, so \<^verbatim>\<open>daysLeft\<close> is 0 and the allowance is returned.
\<close>

definition calculateRequiredDaily :: "zone \<Rightarrow> day \<Rightarrow> plan \<Rightarrow> real \<Rightarrow> real" where
  "calculateRequiredDaily z today plan allowance =
     (if isDateInExclusions today (exclusions plan) then 0
      else if useEndDate plan = Some False then
        (if \<not> manualSavingsMode plan then allowance * 0.5
         else orZero (dailySavingsGoal plan))
      else if goal plan = 0 then 0
      else (case endDate plan of
          None \<Rightarrow> allowance
        | Some endDay \<Rightarrow>
            if \<not> dateLe (atMidnight z today) (atMidnight z endDay) then 0
            else (let daysLeft = countCalculationDays z today endDay (exclusions plan) in
              if daysLeft \<le> 0 then allowance
              else (let currentSavings = orZero (totalSaved plan);
                        remainingNeeded = goal plan - currentSavings;
                        target = max 0 (remainingNeeded / real daysLeft);
                        target' = (if useEndDate plan \<noteq> Some False \<and> \<not> manualSavingsMode plan
                                      \<and> allowance \<ge> 80 \<and> target < 50
                                   then target + allowance * 0.20 else target)
                    in min allowance target'))))"

text \<open>
  \<^verbatim>\<open>refreshPlanTarget\<close>. A day that is open has its allowance (the start-day handler
  sets both); for a stored plan with an open day and no allowance the script computes with
  \<^verbatim>\<open>undefined\<close> and stores 0 or no number, which every reader takes as 0: \<open>None\<close>.
\<close>

definition refreshPlanTarget :: "zone \<Rightarrow> day \<Rightarrow> plan \<Rightarrow> plan" where
  "refreshPlanTarget z today plan =
     (if \<not> dayActive plan then plan
      else if \<not> manualSavingsMode plan then
        plan\<lparr>dailySavingsGoal :=
          map_option (calculateRequiredDaily z today plan) (dailyAllowance plan)\<rparr>
      else plan)"

subsection \<open>Rollover\<close>

text \<open>\<^verbatim>\<open>h.push(e); if (h.length > 30) h.shift();\<close>\<close>

definition pushShift :: "snapshot \<Rightarrow> snapshot list \<Rightarrow> snapshot list" where
  "pushShift e h = (let h' = h @ [e] in if length h' > 30 then tl h' else h')"

text \<open>
  The body of \<^verbatim>\<open>state.plans.forEach\<close> in \<^verbatim>\<open>checkDailyReset\<close>, for one plan: it
  updates the plan and the document's \<open>totalSavings\<close>, which is threaded through.
  \<open>label\<close> is \<^verbatim>\<open>state.lastLoginDate || todayStr\<close>.
\<close>

definition closePlan :: "string \<Rightarrow> plan \<Rightarrow> real \<Rightarrow> plan \<times> real" where
  "closePlan label plan savings =
     (if dayActive plan then
        (let actualSavings = orZero (dailyAllowance plan) - orZero (dailySpent plan);
             target = orZero (dailySavingsGoal plan);
             plan1 = (if penaltyMode plan \<and> (estimateMode plan \<or> manualSavingsMode plan)
                      then (if actualSavings < target
                            then plan\<lparr>penaltyDebt :=
                                   Some (orZero (penaltyDebt plan) + (target - actualSavings))\<rparr>
                            else plan)
                      else plan);
             savings1 = savings + actualSavings;
             plan2 = plan1\<lparr>totalSaved := Some (orZero (totalSaved plan1) + actualSavings)\<rparr>;
             plan3 = plan2\<lparr>totalSpent := Some (orZero (totalSpent plan2) + orZero (dailySpent plan2))\<rparr>;
             plan4 = plan3\<lparr>history := pushShift (label, orZero (totalSaved plan3)) (history plan3)\<rparr>
         in (plan4\<lparr>dayActive := False, dailyAllowance := Some 0, dailySpent := Some 0,
                   dailySavingsGoal := Some 0\<rparr>, savings1))
      else (plan, savings))"

fun closePlans :: "string \<Rightarrow> plan list \<Rightarrow> real \<Rightarrow> plan list \<times> real" where
  "closePlans label [] savings = ([], savings)"
| "closePlans label (plan # rest) savings =
     (let (plan', savings1) = closePlan label plan savings;
          (rest', savings2) = closePlans label rest savings1
      in (plan' # rest', savings2))"

text \<open>\<^verbatim>\<open>checkDailyReset\<close>, with \<^verbatim>\<open>getTodayStr()\<close> as the parameter \<open>todayStr\<close>.\<close>

definition checkDailyReset :: "string \<Rightarrow> document \<Rightarrow> document" where
  "checkDailyReset todayStr state =
     (if lastLoginDate state \<noteq> todayStr then
        (let label = (if lastLoginDate state = [] then todayStr else lastLoginDate state);
             (plans', savings1) = closePlans label (plans state) (totalSavings state)
         in state\<lparr>plans := plans', totalSavings := savings1,
                  stateHistory := pushShift (label, savings1) (stateHistory state),
                  lastLoginDate := todayStr\<rparr>)
      else state)"

subsection \<open>Handlers\<close>

text \<open>
  The value of an input field: empty, text that \<^verbatim>\<open>parseFloat\<close> does not read as a number,
  or a number. \<open>parseFloatOrZero\<close> is \<^verbatim>\<open>parseFloat(value) || 0\<close>.
\<close>

datatype input = Empty | NotNumeric | Numeric real

fun parseFloatOrZero :: "input \<Rightarrow> real" where
  "parseFloatOrZero Empty = 0"
| "parseFloatOrZero NotNumeric = 0"
| "parseFloatOrZero (Numeric v) = v"

text \<open>
  A handler reads \<^verbatim>\<open>state.plans.find(p => p.id === currentPlanId)\<close> and mutates that
  plan in place: the first plan with the id is replaced. With no such plan the handler
  stops with a \<^verbatim>\<open>TypeError\<close> at its first access to the plan, before any change.
\<close>

datatype error = MissingAllowance | NoCurrentPlan

fun updateFirst :: "string \<Rightarrow> (plan \<Rightarrow> plan) \<Rightarrow> plan list \<Rightarrow> plan list option" where
  "updateFirst pid f [] = None"
| "updateFirst pid f (p # ps) =
     (if plan_id p = pid then Some (f p # ps)
      else map_option ((#) p) (updateFirst pid f ps))"

definition onCurrentPlan :: "string \<Rightarrow> (plan \<Rightarrow> plan) \<Rightarrow> document \<Rightarrow> error + document" where
  "onCurrentPlan currentPlanId f state =
     (case updateFirst currentPlanId f (plans state) of
        None \<Rightarrow> Inl NoCurrentPlan
      | Some plans' \<Rightarrow> Inr (state\<lparr>plans := plans'\<rparr>))"

text \<open>The \<^verbatim>\<open>onchange\<close> handlers of \<^verbatim>\<open>toggle-estimate\<close> and \<^verbatim>\<open>toggle-manual\<close>.\<close>

definition toggleEstimatePlan :: "zone \<Rightarrow> day \<Rightarrow> bool \<Rightarrow> plan \<Rightarrow> plan" where
  "toggleEstimatePlan z today checked plan =
     (let plan1 = plan\<lparr>estimateMode := checked\<rparr>;
          plan2 = (if estimateMode plan1 then plan1\<lparr>manualSavingsMode := False\<rparr> else plan1)
      in refreshPlanTarget z today plan2)"

definition toggleManualPlan :: "zone \<Rightarrow> day \<Rightarrow> bool \<Rightarrow> plan \<Rightarrow> plan" where
  "toggleManualPlan z today checked plan =
     (let plan1 = plan\<lparr>manualSavingsMode := checked\<rparr>;
          plan2 = (if manualSavingsMode plan1 then plan1\<lparr>estimateMode := False\<rparr>
                   else plan1\<lparr>estimateMode := True\<rparr>)
      in refreshPlanTarget z today plan2)"

definition toggleEstimate :: "zone \<Rightarrow> day \<Rightarrow> string \<Rightarrow> bool \<Rightarrow> document \<Rightarrow> error + document" where
  "toggleEstimate z today currentPlanId checked state =
     onCurrentPlan currentPlanId (toggleEstimatePlan z today checked) state"

definition toggleManual :: "zone \<Rightarrow> day \<Rightarrow> string \<Rightarrow> bool \<Rightarrow> document \<Rightarrow> error + document" where
  "toggleManual z today currentPlanId checked state =
     onCurrentPlan currentPlanId (toggleManualPlan z today checked) state"

text \<open>The \<^verbatim>\<open>onclick\<close> handler of \<^verbatim>\<open>start-day-btn\<close>.\<close>

definition startDayPlan :: "zone \<Rightarrow> day \<Rightarrow> input \<Rightarrow> input \<Rightarrow> plan \<Rightarrow> plan" where
  "startDayPlan z today allowanceInput manualInput plan =
     (let allowance = parseFloatOrZero allowanceInput;
          target = (if manualSavingsMode plan then parseFloatOrZero manualInput
                    else if estimateMode plan then calculateRequiredDaily z today plan allowance
                    else 0)
      in plan\<lparr>dayActive := True, dailyAllowance := Some allowance,
               dailySavingsGoal := Some target, dailySpent := Some 0\<rparr>)"

definition startDay :: "zone \<Rightarrow> day \<Rightarrow> string \<Rightarrow> input \<Rightarrow> input \<Rightarrow> document \<Rightarrow> error + document" where
  "startDay z today currentPlanId allowanceInput manualInput state =
     (if allowanceInput = Empty then Inl MissingAllowance
      else onCurrentPlan currentPlanId (startDayPlan z today allowanceInput manualInput) state)"

subsection \<open>Auxiliary notions for the statements\<close>

text \<open>
  A qualifying day as the counting loop tests it: not a weekend day and in none of the
  ranges \<open>M\<close>.
\<close>

definition qualifies :: "exclusion list \<Rightarrow> day \<Rightarrow> bool" where
  "qualifies M d \<longleftrightarrow> getDay d \<noteq> 0 \<and> getDay d \<noteq> 6 \<and> \<not> list_ex (inRange d) M"

text \<open>
  The plan a rollover leaves (\<open>closed\<close>), the day's actual savings and the date label of a
  rollover's history entries, named for the statements below.
\<close>

definition closed :: "string \<Rightarrow> plan \<Rightarrow> plan" where
  "closed label plan = fst (closePlan label plan 0)"

definition actualSavingsOf :: "plan \<Rightarrow> real" where
  "actualSavingsOf plan = orZero (dailyAllowance plan) - orZero (dailySpent plan)"

definition labelOf :: "string \<Rightarrow> document \<Rightarrow> string" where
  "labelOf todayStr state = (if lastLoginDate state = [] then todayStr else lastLoginDate state)"

text \<open>
  A run of days on the current plan: each day is started with the start-day handler and
  closed by the rollover on the next date (\<open>dayCycles\<close>; a day is given by today's date,
  the two input fields and the next date string). Nothing is bought, so the rollover that
  closes a day pushes the entry \<^verbatim>\<open>{date: state.lastLoginDate || todayStr, totalSaved}\<close>
  with the plan's total raised by the day's allowance: \<open>cycleEntries\<close> lists these entries
  in the order of the days, from the last login date and the plan's total before the run.
\<close>

fun dayCycles :: "zone \<Rightarrow> string \<Rightarrow> (day \<times> input \<times> input \<times> string) list \<Rightarrow> document \<Rightarrow> error + document" where
  "dayCycles z currentPlanId [] state = Inr state"
| "dayCycles z currentPlanId ((today, allowanceInput, manualInput, nextTodayStr) # rest) state =
     (case startDay z today currentPlanId allowanceInput manualInput state of
        Inl e \<Rightarrow> Inl e
      | Inr started \<Rightarrow> dayCycles z currentPlanId rest (checkDailyReset nextTodayStr started))"

fun cycleEntries :: "string \<Rightarrow> real \<Rightarrow> (day \<times> input \<times> input \<times> string) list \<Rightarrow> snapshot list" where
  "cycleEntries lastLogin saved [] = []"
| "cycleEntries lastLogin saved ((today, allowanceInput, manualInput, nextTodayStr) # rest) =
     ((if lastLogin = [] then nextTodayStr else lastLogin), saved + parseFloatOrZero allowanceInput)
       # cycleEntries nextTodayStr (saved + parseFloatOrZero allowanceInput) rest"

subsection \<open>Example data\<close>

text \<open>
  A new plan with an open day (allowance 100, spent 30, target 80), a document that holds
  it, last seen on 2023-12-31, and forty consecutive dates from 2024-01-01.
\<close>

definition examplePlan :: plan where
  "examplePlan =
     (newPlan ''1'' ''trip'' ''2024-01-01'' True (Some (dateOf 2024 1 12)) 10000)
       \<lparr>dayActive := True, dailyAllowance := Some 100, dailySpent := Some 30,
        dailySavingsGoal := Some 80\<rparr>"

definition exampleDocument :: document where
  "exampleDocument =
     \<lparr>tosAgreed = True, plans = [examplePlan], totalSavings = 0, stateHistory = [],
      lastLoginDate = ''2023-12-31''\<rparr>"

definition fortyDays :: "string list" where
  "fortyDays =
     [
      ''2024-01-01'', ''2024-01-02'', ''2024-01-03'', ''2024-01-04'', ''2024-01-05'',
      ''2024-01-06'', ''2024-01-07'', ''2024-01-08'', ''2024-01-09'', ''2024-01-10'',
      ''2024-01-11'', ''2024-01-12'', ''2024-01-13'', ''2024-01-14'', ''2024-01-15'',
      ''2024-01-16'', ''2024-01-17'', ''2024-01-18'', ''2024-01-19'', ''2024-01-20'',
      ''2024-01-21'', ''2024-01-22'', ''2024-01-23'', ''2024-01-24'', ''2024-01-25'',
      ''2024-01-26'', ''2024-01-27'', ''2024-01-28'', ''2024-01-29'', ''2024-01-30'',
      ''2024-01-31'', ''2024-02-01'', ''2024-02-02'', ''2024-02-03'', ''2024-02-04'',
      ''2024-02-05'', ''2024-02-06'', ''2024-02-07'', ''2024-02-08'', ''2024-02-09''
     ]"

text \<open>Forty days, each started with allowance 100 and closed on the date after.\<close>

definition fortyCycles :: "(day \<times> input \<times> input \<times> string) list" where
  "fortyCycles = map (\<lambda>k. (dateOf 2023 12 31 + int k, Numeric 100, Empty, fortyDays ! k)) [0..<40]"

section \<open>Facts about the model\<close>

subsection \<open>Merging\<close>

lemma mergeScan_acc: "mergeScan c xs acc = acc @ mergeScan c xs []"
proof (induction xs arbitrary: c acc)
  case Nil
  show ?case by simp
next
  case (Cons x xs)
  show ?case
  proof (cases "start x \<le> end' c")
    case True
    then show ?thesis using Cons.IH[of _ acc] by simp
  next
    case False
    then show ?thesis using Cons.IH[of x "acc @ [c]"] Cons.IH[of x "[c]"] by simp
  qed
qed

lemma mergeScan_starts:
  "sorted (map start (c # xs)) \<Longrightarrow> y \<in> set (mergeScan c xs []) \<Longrightarrow> start c \<le> start y"
proof (induction xs arbitrary: c)
  case Nil
  then show ?case by simp
next
  case (Cons x xs)
  show ?case
  proof (cases "start x \<le> end' c")
    case True
    let ?c = "if end' x > end' c then c\<lparr>end' := end' x\<rparr> else c"
    have s: "sorted (map start (?c # xs))" using Cons.prems(1) by auto
    have "y \<in> set (mergeScan ?c xs [])" using Cons.prems(2) True by simp
    from Cons.IH[OF s this] show ?thesis by (simp split: if_splits)
  next
    case False
    have s: "sorted (map start (x # xs))" using Cons.prems(1) by simp
    have "y = c \<or> y \<in> set (mergeScan x xs [])"
      using Cons.prems(2) False by (simp add: mergeScan_acc[of x xs "[c]"])
    then show ?thesis
    proof
      assume "y = c" then show ?thesis by simp
    next
      assume "y \<in> set (mergeScan x xs [])"
      from Cons.IH[OF s this] Cons.prems(1) show ?thesis by simp
    qed
  qed
qed

lemma mergeScan_sorted:
  "sorted (map start (c # xs)) \<Longrightarrow> sorted (map start (mergeScan c xs []))"
proof (induction xs arbitrary: c)
  case Nil
  show ?case by simp
next
  case (Cons x xs)
  show ?case
  proof (cases "start x \<le> end' c")
    case True
    let ?c = "if end' x > end' c then c\<lparr>end' := end' x\<rparr> else c"
    have s: "sorted (map start (?c # xs))" using Cons.prems by auto
    from Cons.IH[OF s] True show ?thesis by simp
  next
    case False
    have s: "sorted (map start (x # xs))" using Cons.prems by simp
    have "\<forall>y \<in> set (mergeScan x xs []). start c \<le> start y"
      using mergeScan_starts[OF s] Cons.prems by fastforce
    with Cons.IH[OF s] False show ?thesis
      by (simp add: mergeScan_acc[of x xs "[c]"])
  qed
qed

lemma mergeScan_separated:
  "sorted (map start (c # xs)) \<Longrightarrow> separated (mergeScan c xs [])"
proof (induction xs arbitrary: c)
  case Nil
  show ?case by (simp add: separated_def)
next
  case (Cons x xs)
  show ?case
  proof (cases "start x \<le> end' c")
    case True
    let ?c = "if end' x > end' c then c\<lparr>end' := end' x\<rparr> else c"
    have s: "sorted (map start (?c # xs))" using Cons.prems by auto
    from Cons.IH[OF s] True show ?thesis by simp
  next
    case False
    have s: "sorted (map start (x # xs))" using Cons.prems by simp
    have "\<forall>y \<in> set (mergeScan x xs []). end' c < start y"
      using mergeScan_starts[OF s] False by fastforce
    with Cons.IH[OF s] False show ?thesis
      by (simp add: mergeScan_acc[of x xs "[c]"] separated_def)
  qed
qed

lemma mergeScan_fixed:
  "separated (c # xs) \<Longrightarrow> mergeScan c xs [] = c # xs"
proof (induction xs arbitrary: c)
  case Nil
  show ?case by simp
next
  case (Cons x xs)
  have "\<not> start x \<le> end' c" using Cons.prems by (simp add: separated_def)
  moreover have "separated (x # xs)" using Cons.prems by (simp add: separated_def)
  ultimately show ?case using Cons.IH[of x] by (simp add: mergeScan_acc[of x xs "[c]"])
qed

lemma sorted_sort_start: "sorted (map start (sort_key start xs))"
  by (rule sorted_sort_key)

lemma mergeExclusions_sorted: "sorted (map start (mergeExclusions R))"
proof (cases "R = []")
  case True
  then show ?thesis by (simp add: mergeExclusions_def)
next
  case False
  then have ne: "sort_key start R \<noteq> []" by (metis length_sort length_0_conv)
  have "sorted (map start (hd (sort_key start R) # tl (sort_key start R)))"
    using ne sorted_sort_start[of R] by simp
  from mergeScan_sorted[OF this] False show ?thesis
    by (simp add: mergeExclusions_def Let_def)
qed

lemma mergeExclusions_separated: "separated (mergeExclusions R)"
proof (cases "R = []")
  case True
  then show ?thesis by (simp add: mergeExclusions_def separated_def)
next
  case False
  then have ne: "sort_key start R \<noteq> []" by (metis length_sort length_0_conv)
  have "sorted (map start (hd (sort_key start R) # tl (sort_key start R)))"
    using ne sorted_sort_start[of R] by simp
  from mergeScan_separated[OF this] False show ?thesis
    by (simp add: mergeExclusions_def Let_def)
qed

lemma mergeExclusions_fixed:
  assumes "sorted (map start M)" and "separated M"
  shows "mergeExclusions M = M"
proof (cases M)
  case Nil
  then show ?thesis by (simp add: mergeExclusions_def)
next
  case (Cons c xs)
  have "sort_key start M = M" using assms(1) by (rule sort_key_id_if_sorted)
  moreover have "mergeScan c xs [] = c # xs" using assms(2) Cons by (simp add: mergeScan_fixed)
  ultimately show ?thesis using Cons by (simp add: mergeExclusions_def Let_def)
qed

text \<open>The ranges 1 to 5 January, 4 to 10 January and 1 to 2 February 2024 merge into two.\<close>

lemma mergeExclusions_example:
  "mergeExclusions
     [\<lparr>start = dateOf 2024 1 1, end' = dateOf 2024 1 5\<rparr>,
      \<lparr>start = dateOf 2024 1 4, end' = dateOf 2024 1 10\<rparr>,
      \<lparr>start = dateOf 2024 2 1, end' = dateOf 2024 2 2\<rparr>]
   = [\<lparr>start = dateOf 2024 1 1, end' = dateOf 2024 1 10\<rparr>,
      \<lparr>start = dateOf 2024 2 1, end' = dateOf 2024 2 2\<rparr>]"
  by (simp add: mergeExclusions_def dateOf_def)

subsection \<open>Merging keeps the covered days\<close>

lemma inRange_merge:
  assumes "start c \<le> start x" "start x \<le> end' c"
  shows "inRange d (if end' x > end' c then c\<lparr>end' := end' x\<rparr> else c) \<longleftrightarrow> inRange d c \<or> inRange d x"
  using assms by (auto simp: inRange_def)

lemma mergeScan_covers:
  "sorted (map start (c # xs)) \<Longrightarrow>
   (\<exists>y \<in> set (mergeScan c xs []). inRange d y) \<longleftrightarrow> (inRange d c \<or> (\<exists>y \<in> set xs. inRange d y))"
proof (induction xs arbitrary: c)
  case Nil
  show ?case by simp
next
  case (Cons x xs)
  show ?case
  proof (cases "start x \<le> end' c")
    case True
    let ?c = "if end' x > end' c then c\<lparr>end' := end' x\<rparr> else c"
    have s: "sorted (map start (?c # xs))" using Cons.prems by auto
    have le: "start c \<le> start x" using Cons.prems by simp
    have "(\<exists>y \<in> set (mergeScan c (x # xs) []). inRange d y) \<longleftrightarrow> (\<exists>y \<in> set (mergeScan ?c xs []). inRange d y)"
      using True by simp
    also have "\<dots> \<longleftrightarrow> (inRange d ?c \<or> (\<exists>y \<in> set xs. inRange d y))"
      by (rule Cons.IH[OF s])
    also have "\<dots> \<longleftrightarrow> (inRange d c \<or> (\<exists>y \<in> set (x # xs). inRange d y))"
      using inRange_merge[OF le True, of d] by auto
    finally show ?thesis .
  next
    case False
    have s: "sorted (map start (x # xs))" using Cons.prems by simp
    show ?thesis using Cons.IH[OF s] False
      by (auto simp: mergeScan_acc[of x xs "[c]"])
  qed
qed

lemma mergeExclusions_covers:
  "list_ex (inRange d) (mergeExclusions X) = list_ex (inRange d) X"
proof (cases "X = []")
  case True
  then show ?thesis by (simp add: mergeExclusions_def)
next
  case False
  then have ne: "sort_key start X \<noteq> []" by (metis length_sort length_0_conv)
  then obtain c xs where cx: "sort_key start X = c # xs" by (cases "sort_key start X") auto
  have s: "sorted (map start (c # xs))" using sorted_sort_start[of X] cx by simp
  have "set X = set (c # xs)" using cx by (metis set_sort)
  then show ?thesis using mergeScan_covers[OF s, of d] False cx
    by (simp add: mergeExclusions_def list_ex_iff)
qed

subsection \<open>The counting loop\<close>

lemma dateLe_atMidnight: "dateLe (atMidnight z a) (atMidnight z b) \<longleftrightarrow> a \<le> b"
  by (cases "a = b") (auto simp: dateLe_def atMidnight_def localTime_def)

text \<open>
  Where no day from \<open>cur\<close> to \<open>lastDate\<close> has its midnight skipped, the loop counts the
  qualifying days of the range.
\<close>

lemma countLoop_filter:
  assumes "\<forall>d. fst cur \<le> d \<and> d \<le> fst lastDate \<longrightarrow> z d = 0"
    and "snd cur = 0" and "snd lastDate = 0"
  shows "countLoop z cur lastDate M n =
     n + length (filter (qualifies M) [fst cur..fst lastDate])"
  using assms
proof (induction z cur lastDate M n rule: countLoop.induct)
  case (1 z cur lastDate M n)
  show ?case
  proof (cases "fst cur \<le> fst lastDate")
    case True
    then have le: "dateLe cur lastDate" using "1.prems"(2,3) by (auto simp: dateLe_def)
    have u: "[fst cur..fst lastDate] = fst cur # [fst cur + 1..fst lastDate]"
      using True by (simp add: upto_rec1)
    have nx: "setDateNext z cur = (fst cur + 1, 0) \<or> fst lastDate < fst cur + 1"
      using "1.prems"(1,2) by (cases "fst cur + 1 \<le> fst lastDate") (auto simp: setDateNext_def localTime_def)
    have step: "countLoop z cur lastDate M n =
        countLoop z (setDateNext z cur) lastDate M (if qualifies M (fst cur) then n + 1 else n)"
      using le by (subst countLoop.simps) (simp add: Let_def qualifies_def[of M "fst cur"])
    show ?thesis
    proof (cases "fst cur + 1 \<le> fst lastDate")
      case True
      then have n0: "setDateNext z cur = (fst cur + 1, 0)" using nx by auto
      have p1: "\<forall>d. fst (setDateNext z cur) \<le> d \<and> d \<le> fst lastDate \<longrightarrow> z d = 0"
        using "1.prems"(1) by (simp add: n0)
      have p2: "snd (setDateNext z cur) = 0" by (simp add: n0)
      have IH: "countLoop z (setDateNext z cur) lastDate M (if qualifies M (fst cur) then n + 1 else n) =
          (if qualifies M (fst cur) then n + 1 else n)
            + length (filter (qualifies M) [fst cur + 1..fst lastDate])"
        using "1.IH"[OF le refl refl refl p1 p2 "1.prems"(3)]
        by (simp add: qualifies_def[of M "fst cur"] n0)
      show ?thesis unfolding step IH u by simp
    next
      case False
      then have "\<not> dateLe (setDateNext z cur) lastDate"
        by (auto simp: dateLe_def setDateNext_def localTime_def)
      then have "countLoop z (setDateNext z cur) lastDate M (if qualifies M (fst cur) then n + 1 else n)
          = (if qualifies M (fst cur) then n + 1 else n)"
        by (subst countLoop.simps) simp
      then show ?thesis unfolding step u using False by simp
    qed
  next
    case False
    then have "\<not> dateLe cur lastDate" by (auto simp: dateLe_def)
    then show ?thesis using False by (subst countLoop.simps) simp
  qed
qed

lemma getDay_weekday: "getDay d \<in> {1..5} \<longleftrightarrow> getDay d \<noteq> 0 \<and> getDay d \<noteq> 6"
proof -
  have "0 \<le> getDay d" "getDay d < 7" by (simp_all add: getDay_def)
  then show ?thesis by auto
qed

lemma countCalculationDays_card:
  assumes "\<forall>d. s \<le> d \<and> d \<le> e \<longrightarrow> z d = 0"
  shows "countCalculationDays z s e X =
     card {d. s \<le> d \<and> d \<le> e \<and> getDay d \<in> {1..5}
              \<and> \<not> (\<exists>x \<in> set X. start x \<le> d \<and> d \<le> end' x)}"
proof -
  let ?M = "mergeExclusions X"
  have q: "qualifies ?M d \<longleftrightarrow> getDay d \<in> {1..5} \<and> \<not> (\<exists>x \<in> set X. start x \<le> d \<and> d \<le> end' x)" for d
    unfolding qualifies_def mergeExclusions_covers getDay_weekday
    by (auto simp: list_ex_iff inRange_def)
  have "countCalculationDays z s e X = length (filter (qualifies ?M) [s..e])"
  proof (cases "s \<le> e")
    case True
    have "countLoop z (atMidnight z s) (atMidnight z e) ?M 0 =
        0 + length (filter (qualifies ?M) [fst (atMidnight z s)..fst (atMidnight z e)])"
      using assms True by (intro countLoop_filter) (auto simp: atMidnight_def localTime_def)
    then show ?thesis by (simp add: countCalculationDays_def atMidnight_def localTime_def)
  next
    case False
    then have "\<not> dateLe (atMidnight z s) (atMidnight z e)" by (simp add: dateLe_atMidnight)
    then have "countLoop z (atMidnight z s) (atMidnight z e) ?M 0 = 0"
      by (subst countLoop.simps) simp
    then show ?thesis using False by (simp add: countCalculationDays_def)
  qed
  also have "\<dots> = card (set (filter (qualifies ?M) [s..e]))"
    by (rule distinct_card[symmetric]) simp
  also have "set (filter (qualifies ?M) [s..e]) =
     {d. s \<le> d \<and> d \<le> e \<and> getDay d \<in> {1..5} \<and> \<not> (\<exists>x \<in> set X. start x \<le> d \<and> d \<le> end' x)}"
    using q by auto
  finally show ?thesis .
qed

subsection \<open>The daily target, branch by branch\<close>

lemma calculateRequiredDaily_excluded:
  "isDateInExclusions today (exclusions plan) \<Longrightarrow> calculateRequiredDaily z today plan allowance = 0"
  by (simp add: calculateRequiredDaily_def)

lemma calculateRequiredDaily_manual_indefinite:
  "\<not> isDateInExclusions today (exclusions plan) \<Longrightarrow> useEndDate plan = Some False \<Longrightarrow>
   manualSavingsMode plan \<Longrightarrow>
   calculateRequiredDaily z today plan allowance = orZero (dailySavingsGoal plan)"
  by (simp add: calculateRequiredDaily_def)

lemma calculateRequiredDaily_bounds:
  assumes "0 \<le> allowance"
    and "\<not> (useEndDate plan = Some False \<and> manualSavingsMode plan
            \<and> \<not> isDateInExclusions today (exclusions plan))"
  shows "0 \<le> calculateRequiredDaily z today plan allowance
         \<and> calculateRequiredDaily z today plan allowance \<le> allowance"
  using assms
  by (auto simp: calculateRequiredDaily_def Let_def min_def max_def split: option.splits)

lemma calculateRequiredDaily_formula:
  assumes "\<not> isDateInExclusions today (exclusions plan)"
    and "useEndDate plan \<noteq> Some False"
    and "goal plan \<noteq> 0"
    and "endDate plan = Some endDay"
    and "today \<le> endDay"
    and "0 < countCalculationDays z today endDay (exclusions plan)"
  shows "calculateRequiredDaily z today plan allowance =
     (let target = max 0 ((goal plan - orZero (totalSaved plan))
                            / real (countCalculationDays z today endDay (exclusions plan)))
      in min allowance (if \<not> manualSavingsMode plan \<and> allowance \<ge> 80 \<and> target < 50
                        then target + allowance * 0.20 else target))"
  using assms by (simp add: calculateRequiredDaily_def Let_def dateLe_atMidnight)

subsection \<open>Rollover\<close>

lemma closePlan_split:
  "closePlan label plan s =
     (closed label plan, if dayActive plan then s + actualSavingsOf plan else s)"
  by (simp add: closePlan_def closed_def actualSavingsOf_def Let_def)

lemma closePlans_split:
  "closePlans label ps s =
     (map (closed label) ps, s + sum_list (map actualSavingsOf (filter dayActive ps)))"
  by (induction ps arbitrary: s) (simp_all add: closePlan_split)

lemma closed_inactive: "\<not> dayActive plan \<Longrightarrow> closed label plan = plan"
  by (simp add: closed_def closePlan_def)

lemma closed_not_active: "\<not> dayActive (closed label plan)"
  by (simp add: closed_def closePlan_def Let_def)

lemma closed_day_fields:
  "dayActive plan \<Longrightarrow>
   dailyAllowance (closed label plan) = Some 0 \<and> dailySpent (closed label plan) = Some 0
   \<and> dailySavingsGoal (closed label plan) = Some 0"
  by (simp add: closed_def closePlan_def Let_def)

lemma closed_totals:
  "dayActive plan \<Longrightarrow>
   totalSaved (closed label plan) = Some (orZero (totalSaved plan) + actualSavingsOf plan)
   \<and> totalSpent (closed label plan) = Some (orZero (totalSpent plan) + orZero (dailySpent plan))"
  by (simp add: closed_def closePlan_def Let_def actualSavingsOf_def)

lemma closed_penaltyDebt:
  "dayActive plan \<Longrightarrow>
   penaltyDebt (closed label plan) =
     (if penaltyMode plan \<and> (estimateMode plan \<or> manualSavingsMode plan)
         \<and> actualSavingsOf plan < orZero (dailySavingsGoal plan)
      then Some (orZero (penaltyDebt plan) + (orZero (dailySavingsGoal plan) - actualSavingsOf plan))
      else penaltyDebt plan)"
  by (auto simp: closed_def closePlan_def Let_def actualSavingsOf_def)

lemma closed_history:
  "dayActive plan \<Longrightarrow>
   history (closed label plan) =
     pushShift (label, orZero (totalSaved plan) + actualSavingsOf plan) (history plan)"
  by (simp add: closed_def closePlan_def Let_def actualSavingsOf_def orZero_def)

lemma checkDailyReset_changed:
  "lastLoginDate state \<noteq> todayStr \<Longrightarrow>
   checkDailyReset todayStr state =
     state\<lparr>plans := map (closed (labelOf todayStr state)) (plans state),
           totalSavings := totalSavings state
              + sum_list (map actualSavingsOf (filter dayActive (plans state))),
           stateHistory := pushShift (labelOf todayStr state, totalSavings state
              + sum_list (map actualSavingsOf (filter dayActive (plans state)))) (stateHistory state),
           lastLoginDate := todayStr\<rparr>"
  by (simp add: checkDailyReset_def closePlans_split labelOf_def Let_def)

lemma checkDailyReset_same: "lastLoginDate state = todayStr \<Longrightarrow> checkDailyReset todayStr state = state"
  by (simp add: checkDailyReset_def)

lemma checkDailyReset_lastLoginDate: "lastLoginDate (checkDailyReset todayStr state) = todayStr"
  by (cases "lastLoginDate state = todayStr") (simp_all add: checkDailyReset_same checkDailyReset_changed)

lemma pushShift_eq:
  "pushShift e h = (if length h < 30 then h @ [e] else tl h @ [e])"
  by (cases h) (auto simp: pushShift_def Let_def)

lemma pushShift_length: "length h \<le> 30 \<Longrightarrow> length (pushShift e h) \<le> 30"
  by (auto simp: pushShift_eq)

lemma fold_pushShift:
  "length h \<le> 30 \<Longrightarrow> fold pushShift es h = drop (length h + length es - 30) (h @ es)"
proof (induction es arbitrary: h)
  case Nil
  then show ?case by simp
next
  case (Cons e es)
  let ?h = "pushShift e h"
  have l: "length ?h \<le> 30" using Cons.prems by (rule pushShift_length)
  show ?case
  proof (cases "length h < 30")
    case True
    then have "?h = h @ [e]" by (simp add: pushShift_eq)
    then show ?thesis using Cons.IH[OF l] by simp
  next
    case False
    then have len: "length h = 30" using Cons.prems by simp
    then have h: "?h = tl h @ [e]" by (simp add: pushShift_eq)
    have ne: "h \<noteq> []" using len by auto
    have "fold pushShift (e # es) h = drop (length ?h + length es - 30) (?h @ es)"
      using Cons.IH[OF l] by simp
    also have "\<dots> = drop (length es) (tl h @ e # es)" using h len by simp
    also have "\<dots> = drop (length es) (drop 1 (h @ e # es))" using ne by (cases h) simp_all
    also have "\<dots> = drop (length h + length (e # es) - 30) (h @ e # es)" using len by simp
    finally show ?thesis .
  qed
qed

lemma checkDailyReset_all_closed:
  assumes "\<forall>p \<in> set (plans state). \<not> dayActive p" and "lastLoginDate state \<noteq> todayStr"
  shows "checkDailyReset todayStr state =
     state\<lparr>stateHistory := pushShift (labelOf todayStr state, totalSavings state) (stateHistory state),
           lastLoginDate := todayStr\<rparr>"
proof -
  have "filter dayActive (plans state) = []" using assms(1) by (simp add: filter_empty_conv)
  moreover have "map (closed (labelOf todayStr state)) (plans state) = plans state"
    using assms(1) by (simp add: closed_inactive map_idI)
  ultimately show ?thesis using checkDailyReset_changed[OF assms(2)] by simp
qed

lemma closed_run:
  assumes "\<forall>p \<in> set (plans state). \<not> dayActive p"
    and "distinct_adj (lastLoginDate state # days)"
    and "lastLoginDate state \<noteq> []"
    and "[] \<notin> set days"
  shows "stateHistory (fold checkDailyReset days state) =
     fold pushShift (map (\<lambda>d. (d, totalSavings state)) (butlast (lastLoginDate state # days)))
       (stateHistory state)"
  using assms
proof (induction days arbitrary: state)
  case Nil
  then show ?case by simp
next
  case (Cons d ds)
  let ?s = "checkDailyReset d state"
  have ne: "lastLoginDate state \<noteq> d" using Cons.prems(2) by simp
  have s: "?s = state\<lparr>stateHistory := pushShift (lastLoginDate state, totalSavings state) (stateHistory state),
           lastLoginDate := d\<rparr>"
    using checkDailyReset_all_closed[OF Cons.prems(1) ne] Cons.prems(3) by (simp add: labelOf_def)
  have 1: "\<forall>p \<in> set (plans ?s). \<not> dayActive p" using Cons.prems(1) by (simp add: s)
  have 2: "distinct_adj (lastLoginDate ?s # ds)" using Cons.prems(2) by (simp add: s)
  have 3: "lastLoginDate ?s \<noteq> []" using Cons.prems(4) by (auto simp: s)
  have 4: "[] \<notin> set ds" using Cons.prems(4) by simp
  show ?case using Cons.IH[OF 1 2 3 4] by (simp add: s)
qed


lemma checkDailyReset_nth:
  "lastLoginDate state \<noteq> todayStr \<Longrightarrow> i < length (plans state) \<Longrightarrow>
   plans (checkDailyReset todayStr state) ! i = closed (labelOf todayStr state) (plans state ! i)"
  by (simp add: checkDailyReset_changed)

lemma checkDailyReset_totalSavings:
  "lastLoginDate state \<noteq> todayStr \<Longrightarrow>
   totalSavings (checkDailyReset todayStr state) =
     totalSavings state + sum_list (map actualSavingsOf (filter dayActive (plans state)))"
  by (simp add: checkDailyReset_changed)

lemma checkDailyReset_stateHistory:
  "lastLoginDate state \<noteq> todayStr \<Longrightarrow>
   stateHistory (checkDailyReset todayStr state) =
     pushShift (labelOf todayStr state, totalSavings (checkDailyReset todayStr state))
       (stateHistory state)"
  by (simp add: checkDailyReset_changed)

subsection \<open>Bounded histories\<close>

lemma closed_history_bound:
  "length (history plan) \<le> 30 \<Longrightarrow> length (history (closed label plan)) \<le> 30"
  by (cases "dayActive plan") (simp_all add: closed_history closed_inactive pushShift_length)

lemma checkDailyReset_history_bounds:
  assumes "length (stateHistory state) \<le> 30" and "\<forall>p \<in> set (plans state). length (history p) \<le> 30"
  shows "length (stateHistory (checkDailyReset todayStr state)) \<le> 30
       \<and> (\<forall>p \<in> set (plans (checkDailyReset todayStr state)). length (history p) \<le> 30)"
proof (cases "lastLoginDate state = todayStr")
  case True
  then show ?thesis using assms by (simp add: checkDailyReset_same)
next
  case False
  show ?thesis
    using assms by (auto simp: checkDailyReset_changed[OF False] pushShift_length closed_history_bound)
qed

lemma forty_rollovers:
  assumes h: "length (stateHistory state) \<le> 30"
    and len: "length days = 40"
    and adj: "distinct_adj (lastLoginDate state # days)"
    and ne: "[] \<notin> set days"
  shows "stateHistory (fold checkDailyReset days state) =
     drop 10 (map (\<lambda>d. (d, totalSavings (checkDailyReset (hd days) state)))
                (labelOf (hd days) state # butlast days))"
proof -
  obtain d1 ds where days: "days = d1 # ds" using len by (cases days) auto
  let ?s1 = "checkDailyReset d1 state"
  let ?T = "totalSavings ?s1"
  have ch: "lastLoginDate state \<noteq> d1" using adj days by simp
  have dsne: "ds \<noteq> []" using len days by auto
  have 1: "\<forall>p \<in> set (plans ?s1). \<not> dayActive p"
    by (simp add: checkDailyReset_changed[OF ch] closed_not_active)
  have 2: "distinct_adj (lastLoginDate ?s1 # ds)"
    using adj days dsne by (cases ds) (simp_all add: checkDailyReset_lastLoginDate)
  have 3: "lastLoginDate ?s1 \<noteq> []" using ne days by (auto simp: checkDailyReset_lastLoginDate)
  have 4: "[] \<notin> set ds" using ne days by simp
  let ?pushed = "map (\<lambda>d. (d, ?T)) (labelOf d1 state # butlast days)"
  have "stateHistory (fold checkDailyReset days state) = stateHistory (fold checkDailyReset ds ?s1)"
    by (simp add: days)
  also have "\<dots> = fold pushShift (map (\<lambda>d. (d, ?T)) (butlast (d1 # ds))) (stateHistory ?s1)"
    using closed_run[OF 1 2 3 4] by (simp add: checkDailyReset_lastLoginDate)
  also have "\<dots> = fold pushShift ?pushed (stateHistory state)"
    by (simp add: checkDailyReset_stateHistory[OF ch] days)
  also have "\<dots> = drop (length (stateHistory state) + length ?pushed - 30) (stateHistory state @ ?pushed)"
    using h by (rule fold_pushShift)
  also have "\<dots> = drop 10 ?pushed" using len by simp
  finally show ?thesis by (simp add: days)
qed

subsection \<open>Handlers\<close>

text \<open>
  The flags after a toggle: the manual toggle always leaves exactly one of them true, the
  estimate toggle only when it is checked.
\<close>

lemma toggleManualPlan_modes:
  "estimateMode (toggleManualPlan z today checked plan) = (\<not> checked)
   \<and> manualSavingsMode (toggleManualPlan z today checked plan) = checked"
  by (simp add: toggleManualPlan_def refreshPlanTarget_def Let_def)

lemma toggleEstimatePlan_modes:
  "estimateMode (toggleEstimatePlan z today checked plan) = checked
   \<and> manualSavingsMode (toggleEstimatePlan z today checked plan)
       = (if checked then False else manualSavingsMode plan)"
  by (simp add: toggleEstimatePlan_def refreshPlanTarget_def Let_def)

lemma updateFirst_Some:
  assumes "find (\<lambda>p. plan_id p = pid) ps = Some p" and "plan_id (f p) = plan_id p"
  shows "\<exists>ps'. updateFirst pid f ps = Some ps' \<and> find (\<lambda>p. plan_id p = pid) ps' = Some (f p)
     \<and> length ps' = length ps
     \<and> (\<forall>i < length ps. ps' ! i = ps ! i \<or> (ps ! i = p \<and> ps' ! i = f p))"
  using assms
proof (induction ps)
  case Nil
  then show ?case by simp
next
  case (Cons q qs)
  show ?case
  proof (cases "plan_id q = pid")
    case True
    then have "q = p" using Cons.prems(1) by simp
    then show ?thesis using True Cons.prems(2) by (auto simp: nth_Cons split: nat.splits)
  next
    case False
    then have "find (\<lambda>p. plan_id p = pid) qs = Some p" using Cons.prems(1) by simp
    from Cons.IH[OF this Cons.prems(2)] obtain ps' where
      ps': "updateFirst pid f qs = Some ps'" "find (\<lambda>p. plan_id p = pid) ps' = Some (f p)"
       "length ps' = length qs" "\<forall>i < length qs. ps' ! i = qs ! i \<or> (qs ! i = p \<and> ps' ! i = f p)"
      by blast
    show ?thesis using False ps' by (auto simp: nth_Cons split: nat.splits)
  qed
qed


lemma startDayPlan_fields:
  "dayActive (startDayPlan z today ai mi plan)
   \<and> dailySpent (startDayPlan z today ai mi plan) = Some 0
   \<and> dailyAllowance (startDayPlan z today ai mi plan) = Some (parseFloatOrZero ai)
   \<and> dailySavingsGoal (startDayPlan z today ai mi plan) =
       Some (if manualSavingsMode plan then parseFloatOrZero mi
             else if estimateMode plan then calculateRequiredDaily z today plan (parseFloatOrZero ai)
             else 0)"
  by (simp add: startDayPlan_def Let_def)

lemma startDayPlan_frame:
  "plan_id (startDayPlan z today ai mi plan) = plan_id plan
   \<and> totalSaved (startDayPlan z today ai mi plan) = totalSaved plan
   \<and> totalSpent (startDayPlan z today ai mi plan) = totalSpent plan
   \<and> penaltyDebt (startDayPlan z today ai mi plan) = penaltyDebt plan
   \<and> history (startDayPlan z today ai mi plan) = history plan"
  by (simp add: startDayPlan_def Let_def)

lemma startDay_result:
  assumes "find (\<lambda>p. plan_id p = pid) (plans state) = Some plan" and "ai \<noteq> Empty"
  shows "\<exists>ps'. startDay z today pid ai mi state = Inr (state\<lparr>plans := ps'\<rparr>)
     \<and> find (\<lambda>p. plan_id p = pid) ps' = Some (startDayPlan z today ai mi plan)
     \<and> length ps' = length (plans state)
     \<and> (\<forall>i < length (plans state). ps' ! i = plans state ! i
           \<or> (plans state ! i = plan \<and> ps' ! i = startDayPlan z today ai mi plan))"
proof -
  have "plan_id (startDayPlan z today ai mi plan) = plan_id plan" by (simp add: startDayPlan_frame)
  from updateFirst_Some[OF assms(1), of "startDayPlan z today ai mi", OF this]
  obtain ps' where ps': "updateFirst pid (startDayPlan z today ai mi) (plans state) = Some ps'"
    "find (\<lambda>p. plan_id p = pid) ps' = Some (startDayPlan z today ai mi plan)"
    "length ps' = length (plans state)"
    "\<forall>i < length (plans state). ps' ! i = plans state ! i
           \<or> (plans state ! i = plan \<and> ps' ! i = startDayPlan z today ai mi plan)"
    by blast
  have "startDay z today pid ai mi state = Inr (state\<lparr>plans := ps'\<rparr>)"
    using assms(2) ps'(1) by (simp add: startDay_def onCurrentPlan_def)
  with ps' show ?thesis by blast
qed

subsection \<open>Days started and closed in turn\<close>

lemma length_cycleEntries: "length (cycleEntries l s cs) = length cs"
  by (induction l s cs rule: cycleEntries.induct) simp_all

lemma closed_plan_id: "plan_id (closed label plan) = plan_id plan"
  by (simp add: closed_def closePlan_def Let_def)

lemma find_map_closed:
  "find (\<lambda>p. plan_id p = pid) (map (closed l) ps) = map_option (closed l) (find (\<lambda>p. plan_id p = pid) ps)"
  by (induction ps) (simp_all add: closed_plan_id)

lemma closed_startDayPlan:
  "history (closed l (startDayPlan z today ai mi plan)) =
     pushShift (l, orZero (totalSaved plan) + parseFloatOrZero ai) (history plan)
   \<and> totalSaved (closed l (startDayPlan z today ai mi plan)) =
       Some (orZero (totalSaved plan) + parseFloatOrZero ai)"
proof -
  let ?p = "startDayPlan z today ai mi plan"
  have a: "dayActive ?p" by (simp add: startDayPlan_fields)
  have "actualSavingsOf ?p = parseFloatOrZero ai"
    by (simp add: actualSavingsOf_def startDayPlan_fields orZero_def)
  then show ?thesis
    using closed_history[OF a, of l] closed_totals[OF a, of l]
    by (simp add: startDayPlan_frame)
qed

lemma cycle_step:
  assumes "find (\<lambda>p. plan_id p = pid) (plans state) = Some plan"
    and "ai \<noteq> Empty" and "lastLoginDate state \<noteq> nd"
  shows "\<exists>started. startDay z today pid ai mi state = Inr started
     \<and> find (\<lambda>p. plan_id p = pid) (plans (checkDailyReset nd started))
         = Some (closed (labelOf nd state) (startDayPlan z today ai mi plan))
     \<and> lastLoginDate (checkDailyReset nd started) = nd"
proof -
  from startDay_result[OF assms(1,2), where today = today and mi = mi and z = z]
  obtain ps' where ps': "startDay z today pid ai mi state = Inr (state\<lparr>plans := ps'\<rparr>)"
    "find (\<lambda>p. plan_id p = pid) ps' = Some (startDayPlan z today ai mi plan)"
    by blast
  let ?s = "state\<lparr>plans := ps'\<rparr>"
  have ne: "lastLoginDate ?s \<noteq> nd" using assms(3) by simp
  have "plans (checkDailyReset nd ?s) = map (closed (labelOf nd ?s)) ps'"
    by (simp add: checkDailyReset_changed[OF ne])
  then have "find (\<lambda>p. plan_id p = pid) (plans (checkDailyReset nd ?s))
      = Some (closed (labelOf nd state) (startDayPlan z today ai mi plan))"
    using ps'(2) by (simp add: find_map_closed labelOf_def)
  then show ?thesis using ps'(1) by (simp add: checkDailyReset_lastLoginDate)
qed

lemma dayCycles_history:
  assumes "find (\<lambda>p. plan_id p = pid) (plans state) = Some plan"
    and "\<forall>c \<in> set cycles. fst (snd c) \<noteq> Empty"
    and "distinct_adj (lastLoginDate state # map (\<lambda>c. snd (snd (snd c))) cycles)"
  shows "\<exists>state' plan'. dayCycles z pid cycles state = Inr state'
     \<and> find (\<lambda>p. plan_id p = pid) (plans state') = Some plan'
     \<and> history plan' =
         fold pushShift (cycleEntries (lastLoginDate state) (orZero (totalSaved plan)) cycles)
           (history plan)"
  using assms
proof (induction cycles arbitrary: state plan)
  case Nil
  then show ?case by simp
next
  case (Cons c cs)
  obtain today ai mi nd where c: "c = (today, ai, mi, nd)" by (cases c) auto
  have ai: "ai \<noteq> Empty" using Cons.prems(2) c by simp
  have ne: "lastLoginDate state \<noteq> nd" using Cons.prems(3) c by simp
  from cycle_step[OF Cons.prems(1) ai ne, of z today mi]
  obtain started where st: "startDay z today pid ai mi state = Inr started"
    "find (\<lambda>p. plan_id p = pid) (plans (checkDailyReset nd started))
         = Some (closed (labelOf nd state) (startDayPlan z today ai mi plan))"
    "lastLoginDate (checkDailyReset nd started) = nd"
    by blast
  let ?s = "checkDailyReset nd started"
  let ?p = "closed (labelOf nd state) (startDayPlan z today ai mi plan)"
  have 2: "\<forall>c \<in> set cs. fst (snd c) \<noteq> Empty" using Cons.prems(2) by simp
  have 3: "distinct_adj (lastLoginDate ?s # map (\<lambda>c. snd (snd (snd c))) cs)"
    using Cons.prems(3) c st(3) by (cases cs) simp_all
  from Cons.IH[OF st(2) 2 3]
  obtain state' plan' where r: "dayCycles z pid cs ?s = Inr state'"
    "find (\<lambda>p. plan_id p = pid) (plans state') = Some plan'"
    "history plan' = fold pushShift (cycleEntries (lastLoginDate ?s) (orZero (totalSaved ?p)) cs) (history ?p)"
    by blast
  have h: "history ?p = pushShift (labelOf nd state, orZero (totalSaved plan) + parseFloatOrZero ai) (history plan)"
    and t: "orZero (totalSaved ?p) = orZero (totalSaved plan) + parseFloatOrZero ai"
    using closed_startDayPlan[of "labelOf nd state" z today ai mi plan] by (simp_all add: orZero_def)
  have "dayCycles z pid (c # cs) state = Inr state'" using r(1) st(1) c by simp
  moreover have "history plan' =
      fold pushShift (cycleEntries (lastLoginDate state) (orZero (totalSaved plan)) (c # cs)) (history plan)"
  proof -
    have "history plan' =
        fold pushShift (cycleEntries nd (orZero (totalSaved plan) + parseFloatOrZero ai) cs)
          (pushShift (labelOf nd state, orZero (totalSaved plan) + parseFloatOrZero ai) (history plan))"
      using r(3) unfolding h t st(3) .
    then show ?thesis by (simp add: c labelOf_def)
  qed
  ultimately show ?case using r(2) by blast
qed

lemma forty_cycles:
  assumes "find (\<lambda>p. plan_id p = pid) (plans state) = Some plan"
    and "length (history plan) \<le> 30"
    and "length cycles = 40"
    and "\<forall>c \<in> set cycles. fst (snd c) \<noteq> Empty"
    and "distinct_adj (lastLoginDate state # map (\<lambda>c. snd (snd (snd c))) cycles)"
  shows "\<exists>state' plan'. dayCycles z pid cycles state = Inr state'
     \<and> find (\<lambda>p. plan_id p = pid) (plans state') = Some plan'
     \<and> length (history plan') = 30
     \<and> history plan' = drop 10 (cycleEntries (lastLoginDate state) (orZero (totalSaved plan)) cycles)"
proof -
  let ?es = "cycleEntries (lastLoginDate state) (orZero (totalSaved plan)) cycles"
  from dayCycles_history[OF assms(1,4,5), of z]
  obtain state' plan' where r: "dayCycles z pid cycles state = Inr state'"
    "find (\<lambda>p. plan_id p = pid) (plans state') = Some plan'"
    "history plan' = fold pushShift ?es (history plan)"
    by blast
  have l: "length ?es = 40" using assms(3) by (simp add: length_cycleEntries)
  have "history plan' = drop (length (history plan) + length ?es - 30) (history plan @ ?es)"
    using r(3) fold_pushShift[OF assms(2)] by simp
  then have "history plan' = drop 10 ?es" using l by simp
  then show ?thesis using r(1,2) l by auto
qed

section \<open>Properties of the specification\<close>

text \<open>
  C6. For every list of ranges \<open>R\<close> (overlapping, duplicated, in any order, also with a
  range whose start is after its end), merging is idempotent, and the merged list is sorted
  ascending by start and pairwise non-overlapping: each range ends strictly before every
  later range starts, so no two of them could be merged.
\<close>

theorem mergeExclusions_idempotent_sorted_minimal:
  "mergeExclusions (mergeExclusions R) = mergeExclusions R
   \<and> sorted (map start (mergeExclusions R))
   \<and> separated (mergeExclusions R)"
  using mergeExclusions_fixed[OF mergeExclusions_sorted mergeExclusions_separated]
    mergeExclusions_sorted mergeExclusions_separated
  by blast

text \<open>
  C9. \<open>countCalculationDays\<close> is to return, for every start, end and list of exclusion
  ranges, the number of days from start to end, both included, that are Monday to Friday
  and in no exclusion range. The code does so for the two examples of 2024 (5 days, and 4
  with the Wednesday excluded), but not for every start and end: where the clock is set
  forward at local midnight of the start day, \<open>cur\<close> is at 01:00 of each day and the last
  day, at 00:00, is never reached. In Asia/Manila, from Monday 1990-05-21 to Friday
  1990-05-25, five working days, the count is 4.
\<close>

theorem countCalculationDays_drops_last_day:
  "countCalculationDays manila (dateOf 1990 5 21) (dateOf 1990 5 25) [] = 4
   \<and> map getDay [dateOf 1990 5 21..dateOf 1990 5 25] = [1, 2, 3, 4, 5]
   \<and> atMidnight manila (dateOf 1990 5 21) = (dateOf 1990 5 21, 60)
   \<and> countCalculationDays manila (dateOf 2024 1 1) (dateOf 2024 1 5) [] = 5
   \<and> countCalculationDays manila (dateOf 2024 1 1) (dateOf 2024 1 5)
        [\<lparr>start = dateOf 2024 1 3, end' = dateOf 2024 1 3\<rparr>] = 4"
proof -
  have "countCalculationDays manila (dateOf 1990 5 21) (dateOf 1990 5 25) [] = 4"
    by code_simp
  moreover have "map getDay [dateOf 1990 5 21..dateOf 1990 5 25] = [1, 2, 3, 4, 5]"
    by code_simp
  moreover have "atMidnight manila (dateOf 1990 5 21) = (dateOf 1990 5 21, 60)"
    by (simp add: atMidnight_def localTime_def manila_def)
  moreover have "countCalculationDays manila (dateOf 2024 1 1) (dateOf 2024 1 5) [] = 5"
    by code_simp
  moreover have "countCalculationDays manila (dateOf 2024 1 1) (dateOf 2024 1 5)
        [\<lparr>start = dateOf 2024 1 3, end' = dateOf 2024 1 3\<rparr>] = 4"
    by code_simp
  ultimately show ?thesis by blast
qed

text \<open>
  C1, as stated: for every plan and every allowance \<open>\<ge> 0\<close> the daily target is \<open>\<ge> 0\<close> and
  at most the allowance, in every mode, indefinite manual mode included. This fails in
  indefinite manual mode, where the function returns the stored manual value as it is:
  a new plan without end date, switched to manual mode and started with allowance 100 and
  manual target 200, has target 200 for allowance 100.
\<close>

theorem dailyTarget_manual_indefinite_counterexample:
  "(0::real) \<le> 100
   \<and> calculateRequiredDaily manila (dateOf 2024 1 1)
        (startDayPlan manila (dateOf 2024 1 1) (Numeric 100) (Numeric 200)
          (toggleManualPlan manila (dateOf 2024 1 1) True
            (newPlan ''1'' ''trip'' ''2024-01-01'' False (Some 0) 1000))) 100 = 200
   \<and> \<not> calculateRequiredDaily manila (dateOf 2024 1 1)
        (startDayPlan manila (dateOf 2024 1 1) (Numeric 100) (Numeric 200)
          (toggleManualPlan manila (dateOf 2024 1 1) True
            (newPlan ''1'' ''trip'' ''2024-01-01'' False (Some 0) 1000))) 100 \<le> 100"
  by (simp add: calculateRequiredDaily_def startDayPlan_def toggleManualPlan_def newPlan_def
      refreshPlanTarget_def isDateInExclusions_def orZero_def)

text \<open>
  C1, amended: for every plan and every allowance \<open>\<ge> 0\<close>, the daily target is \<open>\<ge> 0\<close> and at
  most the allowance in every mode except indefinite manual mode (no end date, manual
  mode) on a day that is not excluded; there the target is the stored manual value for
  today, 0 if unset, whatever the allowance.
\<close>

theorem dailyTarget_bounds_except_manual_indefinite:
  assumes "0 \<le> allowance"
  shows "(useEndDate plan = Some False \<and> manualSavingsMode plan
            \<and> \<not> isDateInExclusions today (exclusions plan)
          \<longrightarrow> calculateRequiredDaily z today plan allowance = orZero (dailySavingsGoal plan))
       \<and> (\<not> (useEndDate plan = Some False \<and> manualSavingsMode plan
               \<and> \<not> isDateInExclusions today (exclusions plan))
          \<longrightarrow> 0 \<le> calculateRequiredDaily z today plan allowance
              \<and> calculateRequiredDaily z today plan allowance \<le> allowance)"
  using calculateRequiredDaily_bounds[OF assms, where plan = plan and today = today and z = z]
    calculateRequiredDaily_manual_indefinite[where today = today and plan = plan and allowance = allowance and z = z]
  by blast

theorem dailyTarget_bounds_except_manual_indefinite_witness:
  "(0::real) \<le> 90
   \<and> 0 \<le> calculateRequiredDaily manila (dateOf 2024 1 1)
        (newPlan ''1'' ''trip'' ''2024-01-01'' True (Some (dateOf 2024 1 12)) 10000) 90
   \<and> calculateRequiredDaily manila (dateOf 2024 1 1)
        (newPlan ''1'' ''trip'' ''2024-01-01'' True (Some (dateOf 2024 1 12)) 10000) 90 \<le> 90
   \<and> calculateRequiredDaily manila (dateOf 2024 1 1)
        ((newPlan ''2'' ''bike'' ''2024-01-01'' False (Some 0) 0)
           \<lparr>estimateMode := False, manualSavingsMode := True\<rparr>) 90 = 0"
proof -
  have a: "(0::real) \<le> 90" by simp
  show ?thesis
    using dailyTarget_bounds_except_manual_indefinite[OF a,
        where plan = "newPlan ''1'' ''trip'' ''2024-01-01'' True (Some (dateOf 2024 1 12)) 10000"
          and today = "dateOf 2024 1 1" and z = manila]
      dailyTarget_bounds_except_manual_indefinite[OF a,
        where plan = "(newPlan ''2'' ''bike'' ''2024-01-01'' False (Some 0) 0)
              \<lparr>estimateMode := False, manualSavingsMode := True\<rparr>"
          and today = "dateOf 2024 1 1" and z = manila]
    by (simp add: newPlan_def isDateInExclusions_def orZero_def)
qed

text \<open>
  C7. For every plan and every allowance, if today lies inside one of the plan's exclusion
  ranges, the daily target is 0, whatever the mode flags, the end-date setting and the goal.
\<close>

theorem dailyTarget_zero_on_excluded_day:
  "isDateInExclusions today (exclusions plan) \<Longrightarrow> calculateRequiredDaily z today plan allowance = 0"
  by (rule calculateRequiredDaily_excluded)

theorem dailyTarget_zero_on_excluded_day_witness:
  "isDateInExclusions (dateOf 2024 1 3)
     (exclusions ((newPlan ''1'' ''trip'' ''2024-01-01'' True (Some (dateOf 2024 1 12)) 10000)
        \<lparr>exclusions := [\<lparr>start = dateOf 2024 1 2, end' = dateOf 2024 1 4\<rparr>]\<rparr>))
   \<and> calculateRequiredDaily manila (dateOf 2024 1 3)
       ((newPlan ''1'' ''trip'' ''2024-01-01'' True (Some (dateOf 2024 1 12)) 10000)
          \<lparr>exclusions := [\<lparr>start = dateOf 2024 1 2, end' = dateOf 2024 1 4\<rparr>]\<rparr>) 100 = 0"
proof -
  have e: "isDateInExclusions (dateOf 2024 1 3)
     (exclusions ((newPlan ''1'' ''trip'' ''2024-01-01'' True (Some (dateOf 2024 1 12)) 10000)
        \<lparr>exclusions := [\<lparr>start = dateOf 2024 1 2, end' = dateOf 2024 1 4\<rparr>]\<rparr>))"
    by (simp add: isDateInExclusions_def inRange_def dateOf_def)
  show ?thesis using e dailyTarget_zero_on_excluded_day[OF e, where allowance = 100 and z = manila] by simp
qed

text \<open>
  C8. With a fixed end date, not in manual mode, today not excluded and not past the end
  date, where the raw target \<open>max 0 ((goal - totalSaved) / daysLeft)\<close> is computed (the goal
  is set and at least one qualifying day is left): when the allowance is at least 80 and
  the raw target is below 50, the daily target is the raw target plus 20% of the allowance,
  capped at the allowance. With goal 10000, total saved 9900, 10 days left and allowance
  90 the raw target is 10, the surcharge 18 and the daily target 28.
\<close>

theorem dailyTarget_surcharge:
  assumes "useEndDate plan \<noteq> Some False"
    and "\<not> manualSavingsMode plan"
    and "\<not> isDateInExclusions today (exclusions plan)"
    and "goal plan \<noteq> 0"
    and "endDate plan = Some endDay"
    and "today \<le> endDay"
    and "daysLeft = countCalculationDays z today endDay (exclusions plan)"
    and "0 < daysLeft"
    and "target = max 0 ((goal plan - orZero (totalSaved plan)) / real daysLeft)"
    and "allowance \<ge> 80"
    and "target < 50"
  shows "calculateRequiredDaily z today plan allowance = min allowance (target + allowance * 0.20)
     \<and> (goal plan = 10000 \<and> totalSaved plan = Some 9900 \<and> daysLeft = 10 \<and> allowance = 90
        \<longrightarrow> target = 10 \<and> allowance * 0.20 = 18
            \<and> calculateRequiredDaily z today plan allowance = 28)"
proof -
  have f: "calculateRequiredDaily z today plan allowance = min allowance (target + allowance * 0.20)"
    using calculateRequiredDaily_formula[OF assms(3) assms(1) assms(4) assms(5) assms(6), where allowance = allowance and z = z]
      assms(2) assms(7) assms(8) assms(9) assms(10) assms(11)
    by (simp add: Let_def)
  have "goal plan = 10000 \<and> totalSaved plan = Some 9900 \<and> daysLeft = 10 \<and> allowance = 90
        \<longrightarrow> target = 10 \<and> allowance * 0.20 = 18"
    using assms(9) by (simp add: orZero_def)
  with f show ?thesis by auto
qed

theorem dailyTarget_surcharge_witness:
  "calculateRequiredDaily manila (dateOf 2024 1 1)
     ((newPlan ''1'' ''trip'' ''2024-01-01'' True (Some (dateOf 2024 1 12)) 10000)
        \<lparr>totalSaved := Some 9900\<rparr>) 90 = 28"
proof -
  let ?p = "(newPlan ''1'' ''trip'' ''2024-01-01'' True (Some (dateOf 2024 1 12)) 10000)
        \<lparr>totalSaved := Some 9900\<rparr>"
  have d: "(10::nat) = countCalculationDays manila (dateOf 2024 1 1) (dateOf 2024 1 12) (exclusions ?p)"
    by code_simp
  have "calculateRequiredDaily manila (dateOf 2024 1 1) ?p 90 = min 90 (10 + 90 * 0.20)
     \<and> (goal ?p = 10000 \<and> totalSaved ?p = Some 9900 \<and> (10::nat) = 10 \<and> (90::real) = 90
        \<longrightarrow> (10::real) = 10 \<and> (90::real) * 0.20 = 18
            \<and> calculateRequiredDaily manila (dateOf 2024 1 1) ?p 90 = 28)"
  proof (rule dailyTarget_surcharge[where endDay = "dateOf 2024 1 12"])
    show "10 = countCalculationDays manila (dateOf 2024 1 1) (dateOf 2024 1 12) (exclusions ?p)"
      by (rule d)
    show "dateOf 2024 1 1 \<le> dateOf 2024 1 12" by (simp add: dateOf_def)
    show "(10::real) = max 0 ((goal ?p - orZero (totalSaved ?p)) / real (10::nat))"
      by (simp add: newPlan_def orZero_def)
  qed (simp_all add: newPlan_def isDateInExclusions_def)
  then show ?thesis by (simp add: newPlan_def)
qed

text \<open>
  C3. When rollover closes an open plan's day (the stored last-login date differs from
  today), with \<open>actualSavings = dailyAllowance - dailySpent\<close>, possibly negative: the
  shortfall \<open>dailySavingsGoal - actualSavings\<close> is added to \<open>penaltyDebt\<close> exactly when penalty
  mode is on and estimate or manual mode is on and \<open>actualSavings < dailySavingsGoal\<close>;
  \<open>actualSavings\<close> is added to the plan's \<open>totalSaved\<close> and to the document's \<open>totalSavings\<close>
  (which grows by the actual savings of every open plan) and \<open>dailySpent\<close> to \<open>totalSpent\<close>;
  \<open>dayActive\<close> becomes false and \<open>dailyAllowance\<close>, \<open>dailySpent\<close>, \<open>dailySavingsGoal\<close> become 0.
  With allowance 100, spent 30, target 80 and penalty mode on, under one of the two target
  modes: actual savings 70, penalty debt up by 10, total saved up by 70.
\<close>

theorem rollover_closes_open_plan:
  assumes "lastLoginDate state \<noteq> todayStr"
    and "i < length (plans state)"
    and "dayActive (plans state ! i)"
  shows "let plan = plans state ! i;
             state' = checkDailyReset todayStr state;
             plan' = plans state' ! i;
             actualSavings = orZero (dailyAllowance plan) - orZero (dailySpent plan);
             target = orZero (dailySavingsGoal plan)
         in penaltyDebt plan' =
              (if penaltyMode plan \<and> (estimateMode plan \<or> manualSavingsMode plan)
                  \<and> actualSavings < target
               then Some (orZero (penaltyDebt plan) + (target - actualSavings))
               else penaltyDebt plan)
          \<and> totalSaved plan' = Some (orZero (totalSaved plan) + actualSavings)
          \<and> totalSpent plan' = Some (orZero (totalSpent plan) + orZero (dailySpent plan))
          \<and> totalSavings state' = totalSavings state
               + (\<Sum>p\<leftarrow>filter dayActive (plans state).
                    orZero (dailyAllowance p) - orZero (dailySpent p))
          \<and> (filter dayActive (plans state) = [plan]
              \<longrightarrow> totalSavings state' = totalSavings state + actualSavings)
          \<and> \<not> dayActive plan' \<and> dailyAllowance plan' = Some 0 \<and> dailySpent plan' = Some 0
          \<and> dailySavingsGoal plan' = Some 0
          \<and> (dailyAllowance plan = Some 100 \<and> dailySpent plan = Some 30
               \<and> dailySavingsGoal plan = Some 80 \<and> penaltyMode plan
               \<and> (estimateMode plan \<or> manualSavingsMode plan)
              \<longrightarrow> actualSavings = 70
                  \<and> penaltyDebt plan' = Some (orZero (penaltyDebt plan) + 10)
                  \<and> totalSaved plan' = Some (orZero (totalSaved plan) + 70))"
proof -
  let ?p = "plans state ! i"
  let ?l = "labelOf todayStr state"
  have n: "plans (checkDailyReset todayStr state) ! i = closed ?l ?p"
    using assms(1,2) by (rule checkDailyReset_nth)
  have t: "totalSavings (checkDailyReset todayStr state) =
      totalSavings state + sum_list (map actualSavingsOf (filter dayActive (plans state)))"
    using assms(1) by (rule checkDailyReset_totalSavings)
  have a: "actualSavingsOf = (\<lambda>p. orZero (dailyAllowance p) - orZero (dailySpent p))"
    by (rule ext) (simp add: actualSavingsOf_def)
  show ?thesis
    unfolding Let_def n t
    using closed_penaltyDebt[OF assms(3), of ?l] closed_totals[OF assms(3), of ?l]
      closed_day_fields[OF assms(3), of ?l] closed_not_active[of ?l ?p]
    by (auto simp: a orZero_def)
qed

theorem rollover_closes_open_plan_witness:
  "lastLoginDate exampleDocument \<noteq> ''2024-01-01''
   \<and> dayActive (plans exampleDocument ! 0)
   \<and> penaltyDebt (plans (checkDailyReset ''2024-01-01'' exampleDocument) ! 0) = Some 10
   \<and> totalSaved (plans (checkDailyReset ''2024-01-01'' exampleDocument) ! 0) = Some 70
   \<and> totalSpent (plans (checkDailyReset ''2024-01-01'' exampleDocument) ! 0) = Some 30
   \<and> totalSavings (checkDailyReset ''2024-01-01'' exampleDocument) = 70
   \<and> \<not> dayActive (plans (checkDailyReset ''2024-01-01'' exampleDocument) ! 0)
   \<and> dailyAllowance (plans (checkDailyReset ''2024-01-01'' exampleDocument) ! 0) = Some 0
   \<and> dailySpent (plans (checkDailyReset ''2024-01-01'' exampleDocument) ! 0) = Some 0
   \<and> dailySavingsGoal (plans (checkDailyReset ''2024-01-01'' exampleDocument) ! 0) = Some 0"
proof -
  have a: "lastLoginDate exampleDocument \<noteq> ''2024-01-01''" by (simp add: exampleDocument_def)
  have b: "0 < length (plans exampleDocument)" by (simp add: exampleDocument_def)
  have c: "dayActive (plans exampleDocument ! 0)"
    by (simp add: exampleDocument_def examplePlan_def)
  have p: "plans exampleDocument ! 0 = examplePlan" by (simp add: exampleDocument_def)
  have f: "filter dayActive (plans exampleDocument) = [examplePlan]"
    by (simp add: exampleDocument_def examplePlan_def)
  have v: "dailyAllowance examplePlan = Some 100" "dailySpent examplePlan = Some 30"
    "dailySavingsGoal examplePlan = Some 80" "penaltyMode examplePlan" "estimateMode examplePlan"
    "penaltyDebt examplePlan = Some 0" "totalSaved examplePlan = Some 0"
    "totalSpent examplePlan = Some 0"
    by (simp_all add: examplePlan_def newPlan_def)
  have t: "totalSavings exampleDocument = 0" by (simp add: exampleDocument_def)
  show ?thesis
    using a c rollover_closes_open_plan[OF a b c]
    unfolding Let_def p f t
    by (simp add: orZero_def v)
qed

text \<open>
  C4. Rollover is idempotent per calendar day: for every document, a second rollover on
  the same day returns the document of the first, and a rollover whose stored last-login
  date is already today changes no field of the document or of any plan.
\<close>

theorem rollover_idempotent_per_day:
  "checkDailyReset todayStr (checkDailyReset todayStr state) = checkDailyReset todayStr state
   \<and> (lastLoginDate state = todayStr \<longrightarrow> checkDailyReset todayStr state = state)"
  using checkDailyReset_same[OF checkDailyReset_lastLoginDate, of todayStr state]
    checkDailyReset_same[of state todayStr]
  by blast

theorem rollover_idempotent_per_day_witness:
  "lastLoginDate exampleDocument = ''2023-12-31''
   \<and> checkDailyReset ''2023-12-31'' exampleDocument = exampleDocument
   \<and> checkDailyReset ''2024-01-01'' (checkDailyReset ''2024-01-01'' exampleDocument)
       = checkDailyReset ''2024-01-01'' exampleDocument"
  using rollover_idempotent_per_day[of "''2023-12-31''" exampleDocument]
    rollover_idempotent_per_day[of "''2024-01-01''" exampleDocument]
  by (simp add: exampleDocument_def)

text \<open>
  C5, as stated: the document-level history and every plan-level history get exactly one
  entry from each rollover, so that after 40 sequential rollovers the history has exactly
  30 entries. For a plan-level history this fails: rollover writes it only for a plan
  whose day is open, and rollover closes the day. After 40 rollovers on 40 consecutive
  dates the document's history has 30 entries and the history of its plan, whose day was
  open at the first of them, has one.
\<close>

theorem plan_history_after_forty_rollovers_counterexample:
  "length fortyDays = 40
   \<and> distinct_adj (lastLoginDate exampleDocument # fortyDays)
   \<and> dayActive (hd (plans exampleDocument))
   \<and> length (stateHistory (fold checkDailyReset fortyDays exampleDocument)) = 30
   \<and> length (history (hd (plans (fold checkDailyReset fortyDays exampleDocument)))) = 1
   \<and> \<not> length (history (hd (plans (fold checkDailyReset fortyDays exampleDocument)))) = 30"
  by code_simp

text \<open>
  C5, amended: a document-level history and plan-level histories of at most 30 entries
  (they start empty and only rollover writes them) still have at most 30 after any
  rollover. A rollover that runs appends exactly one entry at the back of the
  document-level history and of the history of every plan whose day is open, and leaves
  the history of a plan whose day is not open as it is; when the cap of 30 would be
  exceeded it evicts exactly the oldest (front) entry. So after 40 sequential rollovers,
  each on a new date, the document-level history has exactly 30 entries, the last 30 of
  the 40 appended, in order; and so has the history of a plan after 40 days that were
  each started on it and closed by the next rollover.
\<close>

theorem history_capped_at_thirty:
  assumes "length (stateHistory state) \<le> 30"
    and "\<forall>p \<in> set (plans state). length (history p) \<le> 30"
  shows "length (stateHistory (checkDailyReset todayStr state)) \<le> 30
     \<and> (\<forall>p \<in> set (plans (checkDailyReset todayStr state)). length (history p) \<le> 30)
     \<and> (lastLoginDate state \<noteq> todayStr \<longrightarrow>
          (let state' = checkDailyReset todayStr state;
               label = (if lastLoginDate state = [] then todayStr else lastLoginDate state);
               entry = (label, totalSavings state')
           in stateHistory state' =
                (if length (stateHistory state) < 30 then stateHistory state @ [entry]
                 else tl (stateHistory state) @ [entry])
              \<and> (\<forall>i < length (plans state).
                    let plan = plans state ! i; plan' = plans state' ! i;
                        planEntry = (label, orZero (totalSaved plan'))
                    in history plan' =
                         (if \<not> dayActive plan then history plan
                          else if length (history plan) < 30 then history plan @ [planEntry]
                          else tl (history plan) @ [planEntry]))))
     \<and> (length days = 40 \<and> distinct_adj (lastLoginDate state # days) \<and> [] \<notin> set days \<longrightarrow>
          (let final = fold checkDailyReset days state;
               savings = totalSavings (checkDailyReset (hd days) state);
               label = (if lastLoginDate state = [] then hd days else lastLoginDate state);
               pushed = map (\<lambda>d. (d, savings)) (label # butlast days)
           in length pushed = 40
              \<and> length (stateHistory final) = 30
              \<and> stateHistory final = drop 10 pushed))
     \<and> (find (\<lambda>p. plan_id p = currentPlanId) (plans state) = Some plan
         \<and> length cycles = 40
         \<and> (\<forall>(today, allowanceInput, manualInput, nextTodayStr) \<in> set cycles.
               allowanceInput \<noteq> Empty)
         \<and> distinct_adj (lastLoginDate state
               # map (\<lambda>(today, allowanceInput, manualInput, nextTodayStr). nextTodayStr) cycles)
        \<longrightarrow>
          (\<exists>state' plan'.
              dayCycles z currentPlanId cycles state = Inr state'
            \<and> find (\<lambda>p. plan_id p = currentPlanId) (plans state') = Some plan'
            \<and> length (cycleEntries (lastLoginDate state) (orZero (totalSaved plan)) cycles) = 40
            \<and> length (history plan') = 30
            \<and> history plan'
                = drop 10 (cycleEntries (lastLoginDate state) (orZero (totalSaved plan)) cycles)))"
proof -
  have step: "lastLoginDate state \<noteq> todayStr \<longrightarrow>
          (let state' = checkDailyReset todayStr state;
               label = (if lastLoginDate state = [] then todayStr else lastLoginDate state);
               entry = (label, totalSavings state')
           in stateHistory state' =
                (if length (stateHistory state) < 30 then stateHistory state @ [entry]
                 else tl (stateHistory state) @ [entry])
              \<and> (\<forall>i < length (plans state).
                    let plan = plans state ! i; plan' = plans state' ! i;
                        planEntry = (label, orZero (totalSaved plan'))
                    in history plan' =
                         (if \<not> dayActive plan then history plan
                          else if length (history plan) < 30 then history plan @ [planEntry]
                          else tl (history plan) @ [planEntry])))"
  proof
    assume ch: "lastLoginDate state \<noteq> todayStr"
    have l: "(if lastLoginDate state = [] then todayStr else lastLoginDate state) = labelOf todayStr state"
      by (simp add: labelOf_def)
    have p: "history (closed (labelOf todayStr state) plan) =
        (if \<not> dayActive plan then history plan
         else if length (history plan) < 30
           then history plan @ [(labelOf todayStr state, orZero (totalSaved (closed (labelOf todayStr state) plan)))]
           else tl (history plan) @ [(labelOf todayStr state, orZero (totalSaved (closed (labelOf todayStr state) plan)))])"
      for plan
      by (cases "dayActive plan")
        (simp_all add: closed_inactive closed_history closed_totals pushShift_eq orZero_def)
    show "let state' = checkDailyReset todayStr state;
               label = (if lastLoginDate state = [] then todayStr else lastLoginDate state);
               entry = (label, totalSavings state')
           in stateHistory state' =
                (if length (stateHistory state) < 30 then stateHistory state @ [entry]
                 else tl (stateHistory state) @ [entry])
              \<and> (\<forall>i < length (plans state).
                    let plan = plans state ! i; plan' = plans state' ! i;
                        planEntry = (label, orZero (totalSaved plan'))
                    in history plan' =
                         (if \<not> dayActive plan then history plan
                          else if length (history plan) < 30 then history plan @ [planEntry]
                          else tl (history plan) @ [planEntry]))"
      unfolding Let_def l
      using checkDailyReset_stateHistory[OF ch] checkDailyReset_nth[OF ch] p
      by (simp add: pushShift_eq)
  qed
  have run: "length days = 40 \<and> distinct_adj (lastLoginDate state # days) \<and> [] \<notin> set days \<longrightarrow>
          (let final = fold checkDailyReset days state;
               savings = totalSavings (checkDailyReset (hd days) state);
               label = (if lastLoginDate state = [] then hd days else lastLoginDate state);
               pushed = map (\<lambda>d. (d, savings)) (label # butlast days)
           in length pushed = 40
              \<and> length (stateHistory final) = 30
              \<and> stateHistory final = drop 10 pushed)"
  proof
    assume a: "length days = 40 \<and> distinct_adj (lastLoginDate state # days) \<and> [] \<notin> set days"
    have f: "stateHistory (fold checkDailyReset days state) =
       drop 10 (map (\<lambda>d. (d, totalSavings (checkDailyReset (hd days) state)))
                (labelOf (hd days) state # butlast days))"
      using forty_rollovers[OF assms(1)] a by blast
    show "let final = fold checkDailyReset days state;
               savings = totalSavings (checkDailyReset (hd days) state);
               label = (if lastLoginDate state = [] then hd days else lastLoginDate state);
               pushed = map (\<lambda>d. (d, savings)) (label # butlast days)
           in length pushed = 40
              \<and> length (stateHistory final) = 30
              \<and> stateHistory final = drop 10 pushed"
      unfolding Let_def f using a by (simp add: labelOf_def)
  qed
  have cyc: "find (\<lambda>p. plan_id p = currentPlanId) (plans state) = Some plan
         \<and> length cycles = 40
         \<and> (\<forall>(today, allowanceInput, manualInput, nextTodayStr) \<in> set cycles.
               allowanceInput \<noteq> Empty)
         \<and> distinct_adj (lastLoginDate state
               # map (\<lambda>(today, allowanceInput, manualInput, nextTodayStr). nextTodayStr) cycles)
        \<longrightarrow>
          (\<exists>state' plan'.
              dayCycles z currentPlanId cycles state = Inr state'
            \<and> find (\<lambda>p. plan_id p = currentPlanId) (plans state') = Some plan'
            \<and> length (cycleEntries (lastLoginDate state) (orZero (totalSaved plan)) cycles) = 40
            \<and> length (history plan') = 30
            \<and> history plan'
                = drop 10 (cycleEntries (lastLoginDate state) (orZero (totalSaved plan)) cycles))"
  proof
    assume a: "find (\<lambda>p. plan_id p = currentPlanId) (plans state) = Some plan
         \<and> length cycles = 40
         \<and> (\<forall>(today, allowanceInput, manualInput, nextTodayStr) \<in> set cycles.
               allowanceInput \<noteq> Empty)
         \<and> distinct_adj (lastLoginDate state
               # map (\<lambda>(today, allowanceInput, manualInput, nextTodayStr). nextTodayStr) cycles)"
    then have f: "find (\<lambda>p. plan_id p = currentPlanId) (plans state) = Some plan" by blast
    then have "plan \<in> set (plans state)" by (auto simp: find_Some_iff)
    then have h: "length (history plan) \<le> 30" using assms(2) by blast
    have l: "length cycles = 40" using a by blast
    have e: "\<forall>c \<in> set cycles. fst (snd c) \<noteq> Empty" using a by (auto simp: case_prod_beta)
    have "(\<lambda>(today :: day, allowanceInput :: input, manualInput :: input, nextTodayStr :: string).
            nextTodayStr) = (\<lambda>c. snd (snd (snd c)))"
      by (rule ext) (simp add: case_prod_beta)
    then have d: "distinct_adj (lastLoginDate state # map (\<lambda>c. snd (snd (snd c))) cycles)"
      using a by metis
    from forty_cycles[OF f h l e d, of z]
    show "\<exists>state' plan'.
              dayCycles z currentPlanId cycles state = Inr state'
            \<and> find (\<lambda>p. plan_id p = currentPlanId) (plans state') = Some plan'
            \<and> length (cycleEntries (lastLoginDate state) (orZero (totalSaved plan)) cycles) = 40
            \<and> length (history plan') = 30
            \<and> history plan'
                = drop 10 (cycleEntries (lastLoginDate state) (orZero (totalSaved plan)) cycles)"
      using l by (simp add: length_cycleEntries)
  qed
  from checkDailyReset_history_bounds[OF assms, of todayStr] step run cyc show ?thesis by blast
qed

theorem history_capped_at_thirty_witness:
  "length (stateHistory exampleDocument) \<le> 30
   \<and> length fortyDays = 40
   \<and> distinct_adj (lastLoginDate exampleDocument # fortyDays)
   \<and> length (stateHistory (fold checkDailyReset fortyDays exampleDocument)) = 30
   \<and> stateHistory (fold checkDailyReset fortyDays exampleDocument) =
       map (\<lambda>d. (d, totalSavings (checkDailyReset ''2024-01-01'' exampleDocument)))
         (take 30 (drop 9 fortyDays))
   \<and> length fortyCycles = 40
   \<and> (\<exists>state' plan'.
         dayCycles manila ''1'' fortyCycles exampleDocument = Inr state'
       \<and> find (\<lambda>p. plan_id p = ''1'') (plans state') = Some plan'
       \<and> length (history plan') = 30
       \<and> history plan' = drop 10 (cycleEntries ''2023-12-31'' 0 fortyCycles))"
proof -
  have a: "length (stateHistory exampleDocument) \<le> 30" by (simp add: exampleDocument_def)
  have b: "\<forall>p \<in> set (plans exampleDocument). length (history p) \<le> 30"
    by (simp add: exampleDocument_def examplePlan_def newPlan_def)
  have c: "length fortyDays = 40 \<and> distinct_adj (lastLoginDate exampleDocument # fortyDays)
      \<and> [] \<notin> set fortyDays"
    by (simp add: exampleDocument_def fortyDays_def)
  have h: "hd fortyDays = ''2024-01-01''" by (simp add: fortyDays_def)
  have l: "lastLoginDate exampleDocument \<noteq> []" by (simp add: exampleDocument_def)
  have d: "drop 10 (lastLoginDate exampleDocument # butlast fortyDays) = take 30 (drop 9 fortyDays)"
    by (simp add: fortyDays_def)
  have f: "find (\<lambda>p. plan_id p = ''1'') (plans exampleDocument) = Some examplePlan"
    by (simp add: exampleDocument_def examplePlan_def newPlan_def)
  have g: "length fortyCycles = 40
      \<and> (\<forall>(today, allowanceInput, manualInput, nextTodayStr) \<in> set fortyCycles.
            allowanceInput \<noteq> Empty)
      \<and> distinct_adj (lastLoginDate exampleDocument
            # map (\<lambda>(today, allowanceInput, manualInput, nextTodayStr). nextTodayStr) fortyCycles)"
    by code_simp
  have v: "lastLoginDate exampleDocument = ''2023-12-31''" "orZero (totalSaved examplePlan) = 0"
    by (simp_all add: exampleDocument_def examplePlan_def newPlan_def orZero_def)
  note t = history_capped_at_thirty[OF a b, where todayStr = "''2024-01-01''" and days = fortyDays
      and currentPlanId = "''1''" and plan = examplePlan and cycles = fortyCycles and z = manila]
  have 1: "length (stateHistory (fold checkDailyReset fortyDays exampleDocument)) = 30
      \<and> stateHistory (fold checkDailyReset fortyDays exampleDocument) =
          drop 10 (map (\<lambda>d. (d, totalSavings (checkDailyReset ''2024-01-01'' exampleDocument)))
            (lastLoginDate exampleDocument # butlast fortyDays))"
    using t c l unfolding Let_def h by simp
  have 2: "\<exists>state' plan'.
         dayCycles manila ''1'' fortyCycles exampleDocument = Inr state'
       \<and> find (\<lambda>p. plan_id p = ''1'') (plans state') = Some plan'
       \<and> length (history plan') = 30
       \<and> history plan' = drop 10 (cycleEntries ''2023-12-31'' 0 fortyCycles)"
    using t f g unfolding v by blast
  from 1 2 show ?thesis using a c d g by (simp add: drop_map)
qed

text \<open>
  C2. Exactly one of \<open>estimateMode\<close> and \<open>manualSavingsMode\<close> is true, and every toggle
  operation keeps it so. The code breaks this: the manual toggle sets \<open>estimateMode\<close> to the
  opposite of its own new value, checked or unchecked, but the estimate toggle only clears
  \<open>manualSavingsMode\<close> when checked. Unchecking the estimate toggle on a plan in estimate
  mode (here a new plan with an open day) leaves both flags false.
\<close>

theorem toggleEstimate_unchecked_leaves_no_mode:
  "estimateMode examplePlan \<and> \<not> manualSavingsMode examplePlan
   \<and> toggleEstimate manila (dateOf 2024 1 1) ''1'' False exampleDocument
       = Inr (exampleDocument\<lparr>plans := [toggleEstimatePlan manila (dateOf 2024 1 1) False examplePlan]\<rparr>)
   \<and> \<not> estimateMode (toggleEstimatePlan manila (dateOf 2024 1 1) False examplePlan)
   \<and> \<not> manualSavingsMode (toggleEstimatePlan manila (dateOf 2024 1 1) False examplePlan)"
  by (simp add: toggleEstimate_def onCurrentPlan_def exampleDocument_def toggleEstimatePlan_modes
      examplePlan_def newPlan_def)

text \<open>
  C10. The start-day operation on a plan whose day is already open, given an allowance,
  overwrites the open day: \<open>dailySpent\<close> becomes 0 and \<open>dailyAllowance\<close> and \<open>dailySavingsGoal\<close>
  are replaced, while \<open>totalSaved\<close>, \<open>totalSpent\<close>, \<open>penaltyDebt\<close>, the plan's history, the
  document's history and \<open>totalSavings\<close> and every other plan stay as they were: what was
  spent and saved in the day in progress is dropped with no accrual.
\<close>

theorem startDay_overwrites_open_day:
  assumes "find (\<lambda>p. plan_id p = currentPlanId) (plans state) = Some plan"
    and "dayActive plan"
    and "allowanceInput \<noteq> Empty"
  shows "\<exists>state' plan'.
       startDay z today currentPlanId allowanceInput manualInput state = Inr state'
     \<and> find (\<lambda>p. plan_id p = currentPlanId) (plans state') = Some plan'
     \<and> dayActive plan'
     \<and> dailySpent plan' = Some 0
     \<and> dailyAllowance plan' = Some (parseFloatOrZero allowanceInput)
     \<and> dailySavingsGoal plan' =
         Some (if manualSavingsMode plan then parseFloatOrZero manualInput
               else if estimateMode plan
                 then calculateRequiredDaily z today plan (parseFloatOrZero allowanceInput)
               else 0)
     \<and> totalSaved plan' = totalSaved plan
     \<and> totalSpent plan' = totalSpent plan
     \<and> penaltyDebt plan' = penaltyDebt plan
     \<and> history plan' = history plan
     \<and> stateHistory state' = stateHistory state
     \<and> totalSavings state' = totalSavings state
     \<and> lastLoginDate state' = lastLoginDate state
     \<and> length (plans state') = length (plans state)
     \<and> (\<forall>i < length (plans state).
           plans state' ! i = plans state ! i \<or> (plans state ! i = plan \<and> plans state' ! i = plan'))"
proof -
  from startDay_result[OF assms(1) assms(3), where today = today and mi = manualInput and z = z]
  obtain ps' where ps': "startDay z today currentPlanId allowanceInput manualInput state = Inr (state\<lparr>plans := ps'\<rparr>)"
    "find (\<lambda>p. plan_id p = currentPlanId) ps' = Some (startDayPlan z today allowanceInput manualInput plan)"
    "length ps' = length (plans state)"
    "\<forall>i < length (plans state). ps' ! i = plans state ! i
        \<or> (plans state ! i = plan \<and> ps' ! i = startDayPlan z today allowanceInput manualInput plan)"
    by blast
  show ?thesis
    apply (rule exI[of _ "state\<lparr>plans := ps'\<rparr>"])
    apply (rule exI[of _ "startDayPlan z today allowanceInput manualInput plan"])
    using ps' startDayPlan_fields[of z today allowanceInput manualInput plan]
      startDayPlan_frame[of z today allowanceInput manualInput plan]
    by simp
qed

theorem startDay_overwrites_open_day_witness:
  "find (\<lambda>p. plan_id p = ''1'') (plans exampleDocument) = Some examplePlan
   \<and> dayActive examplePlan \<and> dailySpent examplePlan = Some 30 \<and> Numeric 50 \<noteq> Empty
   \<and> (\<exists>state' plan'.
        startDay manila (dateOf 2024 1 2) ''1'' (Numeric 50) Empty exampleDocument = Inr state'
      \<and> find (\<lambda>p. plan_id p = ''1'') (plans state') = Some plan'
      \<and> dayActive plan' \<and> dailySpent plan' = Some 0 \<and> dailyAllowance plan' = Some 50
      \<and> totalSaved plan' = Some 0 \<and> totalSpent plan' = Some 0 \<and> penaltyDebt plan' = Some 0
      \<and> history plan' = [] \<and> stateHistory state' = [] \<and> totalSavings state' = 0)"
proof -
  have a: "find (\<lambda>p. plan_id p = ''1'') (plans exampleDocument) = Some examplePlan"
    by (simp add: exampleDocument_def examplePlan_def newPlan_def)
  have b: "dayActive examplePlan" by (simp add: examplePlan_def)
  have c: "Numeric 50 \<noteq> Empty" by simp
  have v: "dailySpent examplePlan = Some 30" "totalSaved examplePlan = Some 0"
    "totalSpent examplePlan = Some 0" "penaltyDebt examplePlan = Some 0" "history examplePlan = []"
    by (simp_all add: examplePlan_def newPlan_def)
  have d: "stateHistory exampleDocument = []" "totalSavings exampleDocument = 0"
    by (simp_all add: exampleDocument_def)
  from startDay_overwrites_open_day[OF a b c, where today = "dateOf 2024 1 2" and manualInput = Empty and z = manila]
  obtain state' plan' where
    "startDay manila (dateOf 2024 1 2) ''1'' (Numeric 50) Empty exampleDocument = Inr state'"
    "find (\<lambda>p. plan_id p = ''1'') (plans state') = Some plan'"
    "dayActive plan'" "dailySpent plan' = Some 0" "dailyAllowance plan' = Some 50"
    "totalSaved plan' = Some 0" "totalSpent plan' = Some 0" "penaltyDebt plan' = Some 0"
    "history plan' = []" "stateHistory state' = []" "totalSavings state' = 0"
    unfolding v d by auto
  then show ?thesis using a b c v by blast
qed

end
